theory Spec2Isabelle
  imports Complex_Main "HOL-Library.AList" "HOL-Library.Char_ord" "HOL-Library.List_Lexorder"
begin

section \<open>Python values, exceptions and library primitives\<close>

text \<open>
  The exceptions that the modelled code raises, or that the Python builtins and numpy
  raise on its behalf. Every \<^verbatim>\<open>raise\<close>, failed \<^verbatim>\<open>assert\<close>, missing dictionary
  key and division by zero of the source is an \<open>Inl\<close> branch of the model.
\<close>

datatype error =
  KeyError | ValueError | TypeError | ZeroDivisionError | AssertionError
  | AttributeError | OSError | EMAError | RunError

text \<open>
  Values that travel through designs: plain values (numpy floats, Python ints and
  bools, strings) and \<^verbatim>\<open>Category\<close> objects (a name wrapped around a plain value).
  Numbers are exact reals: floating-point rounding is not modelled.
\<close>

datatype atom = Num real | IntV int | BoolV bool | Str string

datatype pyval = Val atom | Category string atom

text \<open>A frozen scipy distribution: the family and the arguments it was built with.\<close>

datatype dist_ctor = Uniform | Randint | Triang | Beta | Pert2 | Bernoulli

datatype frozen = Frozen dist_ctor "real list"

text \<open>
  The library primitives the samplers call but the repository does not define. They are
  parameters of the model. Random draws are indexed by the position \<open>k\<close> of the call in
  the sequence of calls made to the random number generator:
  \<^item> \<open>perm L k n j\<close>: \<^verbatim>\<open>np.random.shuffle\<close>, as call \<open>k\<close> on an array of length \<open>n\<close>,
    moves the element at index \<open>perm L k n j\<close> to index \<open>j\<close>;
  \<^item> \<open>u01 L k j\<close>: the \<open>j\<close>-th standard uniform variate of call \<open>k\<close>;
  \<^item> \<open>ppf L d q\<close>: the quantile function of the frozen distribution \<open>d\<close>;
  \<^item> \<open>rvs1 L d k j\<close>: the \<open>j\<close>-th variate drawn from \<open>d\<close> by call \<open>k\<close>;
  \<^item> \<open>int_of_str L s\<close>: Python's \<^verbatim>\<open>int(s)\<close> on a string, \<open>None\<close> for a \<^verbatim>\<open>ValueError\<close>;
  \<^item> \<open>representation L d\<close>: the name derived from a value assignment.
\<close>

record lib =
  perm :: "nat \<Rightarrow> nat \<Rightarrow> nat \<Rightarrow> nat"
  u01 :: "nat \<Rightarrow> nat \<Rightarrow> real"
  ppf :: "frozen \<Rightarrow> real \<Rightarrow> real"
  rvs1 :: "frozen \<Rightarrow> nat \<Rightarrow> nat \<Rightarrow> real"
  int_of_str :: "string \<Rightarrow> int option"
  representation :: "(string \<times> pyval) list \<Rightarrow> string"

text \<open>Dictionary lookup \<^verbatim>\<open>d[k]\<close>: a missing key raises \<^verbatim>\<open>KeyError\<close>.\<close>

definition lookup :: "('k \<times> 'v) list \<Rightarrow> 'k \<Rightarrow> error + 'v" where
  "lookup d k = (case map_of d k of None \<Rightarrow> Inl KeyError | Some v \<Rightarrow> Inr v)"

text \<open>Python's \<^verbatim>\<open>int(x)\<close> on a float truncates towards zero.\<close>

definition trunc :: "real \<Rightarrow> int" where
  "trunc x = (if 0 \<le> x then \<lfloor>x\<rfloor> else \<lceil>x\<rceil>)"

fun atom_int :: "lib \<Rightarrow> atom \<Rightarrow> error + int" where
  "atom_int L (Num x) = Inr (trunc x)"
| "atom_int L (IntV i) = Inr i"
| "atom_int L (BoolV b) = Inr (if b then 1 else 0)"
| "atom_int L (Str s) = (case int_of_str L s of None \<Rightarrow> Inl ValueError | Some i \<Rightarrow> Inr i)"

fun py_int :: "lib \<Rightarrow> pyval \<Rightarrow> error + int" where
  "py_int L (Val a) = atom_int L a"
| "py_int L (Category c a) = Inl TypeError"

text \<open>Python's \<^verbatim>\<open>==\<close>: numbers (bools included) compare by value across their types.\<close>

fun num_of :: "atom \<Rightarrow> real option" where
  "num_of (Num x) = Some x"
| "num_of (IntV i) = Some (of_int i)"
| "num_of (BoolV b) = Some (if b then 1 else 0)"
| "num_of (Str s) = None"

definition py_eq :: "atom \<Rightarrow> atom \<Rightarrow> bool" where
  "py_eq a b =
     (case num_of a of
        Some x \<Rightarrow> (case num_of b of Some y \<Rightarrow> x = y | None \<Rightarrow> False)
      | None \<Rightarrow> (case num_of b of Some y \<Rightarrow> False | None \<Rightarrow> a = b))"

text \<open>\<^verbatim>\<open>np.round(x, 0)\<close>: to the nearest integer, a tie to the even neighbour.\<close>

definition np_round :: "real \<Rightarrow> int" where
  "np_round x =
     (let f = \<lfloor>x\<rfloor>; d = x - of_int f
      in if d < 1 / 2 then f else if 1 / 2 < d then f + 1 else if even f then f else f + 1)"

text \<open>
  \<^verbatim>\<open>np.linspace(start, stop, num)\<close>: \<open>num\<close> evenly spaced points with both ends included;
  a negative \<open>num\<close> raises \<^verbatim>\<open>ValueError\<close>.
\<close>

definition linspace :: "real \<Rightarrow> real \<Rightarrow> int \<Rightarrow> error + real list" where
  "linspace start stop num =
     (if num < 0 then Inl ValueError
      else if num = 1 then Inr [start]
      else Inr (map (\<lambda>i. start + of_nat i * ((stop - start) / of_int (num - 1)))
                  [0..<nat num]))"

text \<open>\<^verbatim>\<open>np.random.shuffle\<close> as call \<open>k\<close> to the generator.\<close>

definition shuffle :: "lib \<Rightarrow> nat \<Rightarrow> 'a list \<Rightarrow> 'a list" where
  "shuffle L k xs = map (\<lambda>j. xs ! perm L k (length xs) j) [0..<length xs]"

text \<open>
  \<^verbatim>\<open>zip(*columns)\<close>: the rows of a list of columns, as many as the shortest column has
  entries; with no column at all it yields nothing.
\<close>

definition zip_star :: "'a list list \<Rightarrow> 'a list list" where
  "zip_star cols =
     (if cols = [] then []
      else map (\<lambda>i. map (\<lambda>c. c ! i) cols) [0..<Min (set (map length cols))])"

section \<open>Parameters\<close>

text \<open>
  Modelled from the spec: the parameter classes live in \<^verbatim>\<open>parameters.py\<close>, which is not
  among the sources. A parameter has a name, a kind (real, integer, boolean or
  categorical), bounds, a distribution descriptor (family name and shape parameters),
  an optional explicit resolution (empty when absent), a factorial-membership flag and,
  when categorical, its categories in insertion order (name and value of each).
\<close>

datatype param_kind = RealParameter | IntegerParameter | BooleanParameter | CategoricalParameter

record parameter =
  name :: string
  kind :: param_kind
  dist :: string
  params :: "real list"
  lower_bound :: real
  upper_bound :: real
  resolution :: "pyval list"
  pff :: bool
  categories :: "(string \<times> atom) list"

text \<open>
  The \<^verbatim>\<open>isinstance\<close> tests of the source. The source's comment says that a categorical
  parameter is an integer parameter; the spec lists boolean as a kind of its own.
\<close>

definition is_categorical :: "parameter \<Rightarrow> bool" where
  "is_categorical p = (kind p = CategoricalParameter)"

definition is_integer :: "parameter \<Rightarrow> bool" where
  "is_integer p = (kind p = IntegerParameter \<or> kind p = CategoricalParameter)"

definition is_boolean :: "parameter \<Rightarrow> bool" where
  "is_boolean p = (kind p = BooleanParameter)"

text \<open>
  Modelled from the spec: \<^verbatim>\<open>value in param.categories\<close> holds when the value equals a
  declared category value, and \<^verbatim>\<open>param.cat_for_index(i)\<close> is the \<open>i\<close>-th category in
  insertion order (an index outside the list raises).
\<close>

definition in_categories :: "atom \<Rightarrow> parameter \<Rightarrow> bool" where
  "in_categories v p = list_ex (\<lambda>c. py_eq v (snd c)) (categories p)"

definition cat_for_index :: "parameter \<Rightarrow> int \<Rightarrow> error + (string \<times> atom)" where
  "cat_for_index p i =
     (if 0 \<le> i \<and> i < int (length (categories p)) then Inr (categories p ! nat i)
      else Inl KeyError)"

section \<open>Distributions known to the samplers\<close>

definition beta :: "real \<Rightarrow> real \<Rightarrow> real \<Rightarrow> real \<Rightarrow> error + frozen" where
  "beta alpha bta low high =
     (if \<not> (alpha > 0 \<and> bta > 0) then Inl AssertionError
      else if \<not> low < high then Inl AssertionError
      else Inr (Frozen Beta [alpha, bta, low, high - low]))"

definition pert :: "real \<Rightarrow> real \<Rightarrow> real \<Rightarrow> real \<Rightarrow> error + frozen" where
  "pert low peak high gamma =
     (let a = low; b = peak; c = high
      in if \<not> (a \<le> b \<and> b \<le> c) then Inl AssertionError
         else if \<not> gamma \<ge> 0 then Inl AssertionError
         else let mu = (a + gamma * b + c) / (gamma + 2)
              in if mu = b then beta 3 3 a c
                 else if (b - mu) * (c - a) = 0 then Inl ZeroDivisionError
                 else let a1 = ((mu - a) * (2 * b - a - c)) / ((b - mu) * (c - a))
                      in if mu - a = 0 then Inl ZeroDivisionError
                         else beta a1 (a1 * (c - mu) / (mu - a)) a c)"

definition pert2 :: "real \<Rightarrow> real \<Rightarrow> real \<Rightarrow> real \<Rightarrow> error + frozen" where
  "pert2 peak gamma low width = pert low peak (low + width) gamma"

definition bernoulli :: "real \<Rightarrow> error + frozen" where
  "bernoulli rate = Inr (Frozen Bernoulli [rate])"

text \<open>
  The class attribute \<^verbatim>\<open>AbstractSampler.distributions\<close>: the names a sampler knows, and
  what each name is bound to.
\<close>

definition distributions :: "(string \<times> dist_ctor) list" where
  "distributions =
     [(''uniform'', Uniform), (''integer'', Randint), (''triangular'', Triang),
      (''triangle'', Triang), (''triang'', Triang), (''pert'', Pert2),
      (''bernoulli'', Bernoulli)]"

text \<open>
  The call \<^verbatim>\<open>dist(*parms)\<close>. For \<^verbatim>\<open>_pert2\<close> and \<^verbatim>\<open>_bernoulli\<close> the arity is that of the
  source's signatures; the scipy constructors freeze their arguments (scipy's own
  argument checks are outside the repository).
\<close>

fun call_dist :: "dist_ctor \<Rightarrow> real list \<Rightarrow> error + frozen" where
  "call_dist Pert2 [peak, gamma, low, width] = pert2 peak gamma low width"
| "call_dist Pert2 ps = Inl TypeError"
| "call_dist Bernoulli [rate] = bernoulli rate"
| "call_dist Bernoulli [rate, low] = bernoulli rate"
| "call_dist Bernoulli [rate, low, high] = bernoulli rate"
| "call_dist Bernoulli ps = Inl TypeError"
| "call_dist d ps = Inr (Frozen d ps)"

section \<open>Samplers\<close>

text \<open>
  A sampling step takes the position \<open>k\<close> of the next call to the random number
  generator and returns its result together with the position after it, so that how
  much sampling has executed can be read off the state, also when the step raises.
\<close>

type_synonym 'a sampling = "(error + 'a) \<times> nat"

text \<open>\<^verbatim>\<open>LHSSampler._lhs\<close>.\<close>

definition lhs :: "lib \<Rightarrow> dist_ctor \<Rightarrow> real list \<Rightarrow> int \<Rightarrow> nat \<Rightarrow> real list sampling" where
  "lhs L d parms siz k =
     (if siz = 0 then (Inl ZeroDivisionError, k)
      else case linspace 0 ((of_int siz - 1) / of_int siz) siz of
             Inl e \<Rightarrow> (Inl e, k)
           | Inr perc0 \<Rightarrow>
               let perc = shuffle L k perc0;
                   smp = map (\<lambda>j. perc ! j + (1 / of_int siz) * u01 L (k + 1) j)
                           [0..<length perc]
               in case call_dist d parms of
                    Inl e \<Rightarrow> (Inl e, k + 2)
                  | Inr fr \<Rightarrow> (Inr (map (ppf L fr) smp), k + 2))"

datatype base_sampler = LHSSampler | MonteCarloSampler

text \<open>\<^verbatim>\<open>LHSSampler.sample\<close> and \<^verbatim>\<open>MonteCarloSampler.sample\<close>.\<close>

fun sample :: "lib \<Rightarrow> base_sampler \<Rightarrow> string \<Rightarrow> real list \<Rightarrow> int \<Rightarrow> nat \<Rightarrow> real list sampling" where
  "sample L LHSSampler distribution ps sz k =
     (case lookup distributions distribution of
        Inl e \<Rightarrow> (Inl e, k)
      | Inr d \<Rightarrow> lhs L d ps sz k)"
| "sample L MonteCarloSampler distribution ps sz k =
     (case lookup distributions distribution of
        Inl e \<Rightarrow> (Inl e, k)
      | Inr d \<Rightarrow>
          (case call_dist d ps of
             Inl e \<Rightarrow> (Inl e, k)
           | Inr fr \<Rightarrow>
               if sz < 0 then (Inl ValueError, k)
               else (Inr (map (rvs1 L fr k) [0..<nat sz]), k + 1)))"

text \<open>
  \<^verbatim>\<open>AbstractSampler.generate_samples\<close>: the dictionary comprehension, one parameter after
  the other; \<open>acc\<close> is the dictionary built so far, in insertion order.
\<close>

fun generate_samples ::
  "lib \<Rightarrow> base_sampler \<Rightarrow> parameter list \<Rightarrow> int \<Rightarrow> (string \<times> pyval list) list \<Rightarrow> nat
     \<Rightarrow> (string \<times> pyval list) list sampling" where
  "generate_samples L s [] sz acc k = (Inr acc, k)"
| "generate_samples L s (p # ps) sz acc k =
     (case sample L s (dist p) (params p) sz k of
        (Inl e, k') \<Rightarrow> (Inl e, k')
      | (Inr v, k') \<Rightarrow>
          generate_samples L s ps sz (AList.update (name p) (map (\<lambda>x. Val (Num x)) v) acc) k')"

text \<open>The iterables over designs. \<open>kind_of\<close> is the constructor set by the caller.\<close>

datatype kind_ctor = ScenarioKind | PolicyKind

record default_designs =
  designs :: "pyval list list"
  parameters :: "parameter list"
  kind_of :: "kind_ctor option"
  nr :: int

definition DefaultDesigns :: "pyval list list \<Rightarrow> parameter list \<Rightarrow> int \<Rightarrow> default_designs" where
  "DefaultDesigns ds ps n = \<lparr>designs = ds, parameters = ps, kind_of = None, nr = n\<rparr>"

text \<open>The columns \<^verbatim>\<open>[sampled_parameters[u.name] for u in parameters]\<close>.\<close>

fun columns :: "(string \<times> 'v) list \<Rightarrow> parameter list \<Rightarrow> error + 'v list" where
  "columns d [] = Inr []"
| "columns d (p # ps) =
     (case lookup d (name p) of
        Inl e \<Rightarrow> Inl e
      | Inr c \<Rightarrow> (case columns d ps of Inl e \<Rightarrow> Inl e | Inr cs \<Rightarrow> Inr (c # cs)))"

text \<open>\<^verbatim>\<open>AbstractSampler.generate_designs\<close>, inherited by the LHS and Monte Carlo samplers.\<close>

definition generate_designs ::
  "lib \<Rightarrow> base_sampler \<Rightarrow> parameter list \<Rightarrow> int \<Rightarrow> nat \<Rightarrow> default_designs sampling" where
  "generate_designs L s ps nr_samples k =
     (let sorted_ps = sort_key name ps
      in case generate_samples L s sorted_ps nr_samples [] k of
           (Inl e, k') \<Rightarrow> (Inl e, k')
         | (Inr sampled, k') \<Rightarrow>
             (case columns sampled sorted_ps of
                Inl e \<Rightarrow> (Inl e, k')
              | Inr cols \<Rightarrow> (Inr (DefaultDesigns (zip_star cols) sorted_ps nr_samples), k')))"

text \<open>
  \<^verbatim>\<open>FullFactorialSampler.generate_samples\<close>: the levels of one parameter, then the loop
  over the parameters. The declared distribution is never read.
\<close>

definition ff_cats :: "parameter \<Rightarrow> int \<Rightarrow> error + pyval list" where
  "ff_cats p sz =
     (let cats = resolution p
      in if cats \<noteq> [] then Inr cats
         else case linspace (lower_bound p) (upper_bound p) sz of
                Inl e \<Rightarrow> Inl e
              | Inr g \<Rightarrow>
                  if is_integer p
                  then Inr (map (\<lambda>i. Val (IntV i)) (sort (remdups (map np_round g))))
                  else Inr (map (\<lambda>x. Val (Num x)) g))"

fun ff_generate_samples ::
  "parameter list \<Rightarrow> int \<Rightarrow> (string \<times> pyval list) list \<Rightarrow> error + (string \<times> pyval list) list" where
  "ff_generate_samples [] sz acc = Inr acc"
| "ff_generate_samples (p # ps) sz acc =
     (case ff_cats p sz of
        Inl e \<Rightarrow> Inl e
      | Inr cats \<Rightarrow> ff_generate_samples ps sz (AList.update (name p) cats acc))"

text \<open>\<^verbatim>\<open>FullFactorialSampler.determine_nr_of_designs\<close>.\<close>

definition determine_nr_of_designs :: "(string \<times> pyval list) list \<Rightarrow> int" where
  "determine_nr_of_designs sampled_parameters =
     fold (\<lambda>v nr_designs. nr_designs * int (length v)) (map snd sampled_parameters) 1"

text \<open>
  \<^verbatim>\<open>FullFactorialSampler.generate_designs\<close>; \<^verbatim>\<open>itertools.product\<close> of the columns is
  \<^const>\<open>product_lists\<close> (the leftmost column varies slowest, and no column at all gives
  one empty design).
\<close>

definition ff_generate_designs :: "parameter list \<Rightarrow> int \<Rightarrow> error + default_designs" where
  "ff_generate_designs ps nr_samples =
     (let sorted_ps = sort_key name ps
      in case ff_generate_samples sorted_ps nr_samples [] of
           Inl e \<Rightarrow> Inl e
         | Inr samples \<Rightarrow>
             (case columns samples sorted_ps of
                Inl e \<Rightarrow> Inl e
              | Inr cols \<Rightarrow>
                  Inr (DefaultDesigns (product_lists cols) sorted_ps
                         (determine_nr_of_designs samples))))"

text \<open>\<^verbatim>\<open>PartialFactorialSampler\<close>: its constructor, \<^verbatim>\<open>_sort_parameters\<close> and
  \<^verbatim>\<open>generate_designs\<close>.\<close>

definition PartialFactorialSampler_init :: "string \<Rightarrow> error + base_sampler" where
  "PartialFactorialSampler_init sampling =
     (if sampling = ''LHS'' then Inr LHSSampler
      else if sampling = ''MC'' then Inr MonteCarloSampler
      else Inl ValueError)"

definition sort_parameters :: "parameter list \<Rightarrow> parameter list \<times> parameter list" where
  "sort_parameters ps = partition pff ps"

record partial_factorial_designs =
  ff_designs :: default_designs
  other_designs :: default_designs
  pf_parameters :: "parameter list"
  pf_kind :: "kind_ctor option"
  pf_nr :: int

definition PartialFactorialDesigns ::
  "default_designs \<Rightarrow> default_designs \<Rightarrow> parameter list \<Rightarrow> int \<Rightarrow> partial_factorial_designs" where
  "PartialFactorialDesigns ffd od ps n =
     \<lparr>ff_designs = ffd, other_designs = od, pf_parameters = ps, pf_kind = None, pf_nr = n\<rparr>"

definition pff_generate_designs ::
  "lib \<Rightarrow> base_sampler \<Rightarrow> parameter list \<Rightarrow> int \<Rightarrow> nat \<Rightarrow> partial_factorial_designs sampling" where
  "pff_generate_designs L s ps nr_samples k =
     (case sort_parameters ps of
        (ff_params, other_params) \<Rightarrow>
          (case ff_generate_designs ff_params nr_samples of
             Inl e \<Rightarrow> (Inl e, k)
           | Inr ffd \<Rightarrow>
               (case generate_designs L s other_params nr_samples k of
                  (Inl e, k') \<Rightarrow> (Inl e, k')
                | (Inr od, k') \<Rightarrow>
                    (Inr (PartialFactorialDesigns ffd od ps (nr od * nr ffd)), k'))))"

text \<open>A sampler object, and the \<^verbatim>\<open>generate_designs\<close> its class provides.\<close>

datatype sampler =
  Base base_sampler | FullFactorialSampler | PartialFactorialSampler base_sampler

datatype design_set = Default default_designs | Partial partial_factorial_designs

fun sampler_generate_designs ::
  "lib \<Rightarrow> sampler \<Rightarrow> parameter list \<Rightarrow> int \<Rightarrow> nat \<Rightarrow> design_set sampling" where
  "sampler_generate_designs L (Base s) ps n k =
     (case generate_designs L s ps n k of
        (Inl e, k') \<Rightarrow> (Inl e, k')
      | (Inr d, k') \<Rightarrow> (Inr (Default d), k'))"
| "sampler_generate_designs L FullFactorialSampler ps n k =
     (case ff_generate_designs ps n of
        Inl e \<Rightarrow> (Inl e, k)
      | Inr d \<Rightarrow> (Inr (Default d), k))"
| "sampler_generate_designs L (PartialFactorialSampler s) ps n k =
     (case pff_generate_designs L s ps n k of
        (Inl e, k') \<Rightarrow> (Inl e, k')
      | (Inr d, k') \<Rightarrow> (Inr (Partial d), k'))"

text \<open>The total a design set reports (its attribute \<^verbatim>\<open>n\<close>).\<close>

fun reported_n :: "design_set \<Rightarrow> int" where
  "reported_n (Default d) = nr d"
| "reported_n (Partial d) = pf_nr d"

text \<open>
  The assignment \<^verbatim>\<open>samples.kind = value\<close>; the setter of
  \<^verbatim>\<open>PartialFactorialDesigns.kind\<close> passes the value on to both parts.
\<close>

fun set_kind :: "kind_ctor \<Rightarrow> design_set \<Rightarrow> design_set" where
  "set_kind c (Default d) = Default (d\<lparr>kind_of := Some c\<rparr>)"
| "set_kind c (Partial d) =
     Partial (d\<lparr>pf_kind := Some c,
                ff_designs := (ff_designs d)\<lparr>kind_of := Some c\<rparr>,
                other_designs := (other_designs d)\<lparr>kind_of := Some c\<rparr>\<rparr>)"

section \<open>The design assembler\<close>

text \<open>
  Modelled from the spec: \<^verbatim>\<open>Scenario\<close> and \<^verbatim>\<open>Policy\<close> (in \<^verbatim>\<open>parameters.py\<close>, not among
  the sources) are named mappings from parameter names to values; the name is supplied
  or derived from the assignment.
\<close>

datatype design_obj =
  Scenario string "(string \<times> pyval) list" | Policy string "(string \<times> pyval) list"

fun items :: "design_obj \<Rightarrow> (string \<times> pyval) list" where
  "items (Scenario nm d) = d"
| "items (Policy nm d) = d"

text \<open>The call \<^verbatim>\<open>kind(**design_dict)\<close>; a kind that was never set is \<^verbatim>\<open>None\<close>.\<close>

fun apply_kind :: "lib \<Rightarrow> kind_ctor option \<Rightarrow> (string \<times> pyval) list \<Rightarrow> error + design_obj" where
  "apply_kind L None d = Inl TypeError"
| "apply_kind L (Some ScenarioKind) d = Inr (Scenario (representation L d) d)"
| "apply_kind L (Some PolicyKind) d = Inr (Policy (representation L d) d)"

text \<open>
  The type coercion in the body of \<^verbatim>\<open>design_generator\<close>'s inner loop: what becomes of
  the raw value \<open>v\<close> drawn for parameter \<open>p\<close>.
\<close>

definition coerce :: "lib \<Rightarrow> parameter \<Rightarrow> pyval \<Rightarrow> error + pyval" where
  "coerce L p v =
     (if is_categorical p then
        (let v1 = (case v of Category c x \<Rightarrow> x | Val x \<Rightarrow> x)
         in if \<not> in_categories v1 p then
              (case atom_int L v1 of
                 Inl e \<Rightarrow> Inl e
               | Inr i \<Rightarrow>
                   (case cat_for_index p i of Inl e \<Rightarrow> Inl e | Inr c \<Rightarrow> Inr (Val (snd c))))
            else Inr (Val v1))
      else if is_integer p then
        (case py_int L v of Inl e \<Rightarrow> Inl e | Inr i \<Rightarrow> Inr (Val (IntV i)))
      else if is_boolean p then
        (case py_int L v of Inl e \<Rightarrow> Inl e | Inr i \<Rightarrow> Inr (Val (BoolV (i \<noteq> 0))))
      else Inr v)"

fun design_dict ::
  "lib \<Rightarrow> (parameter \<times> pyval) list \<Rightarrow> (string \<times> pyval) list \<Rightarrow> error + (string \<times> pyval) list" where
  "design_dict L [] acc = Inr acc"
| "design_dict L ((p, v) # pvs) acc =
     (case coerce L p v of
        Inl e \<Rightarrow> Inl e
      | Inr v' \<Rightarrow> design_dict L pvs (AList.update (name p) v' acc))"

text \<open>\<^verbatim>\<open>design_generator\<close>, run to its end: the objects it yields, or the first exception.\<close>

fun design_generator ::
  "lib \<Rightarrow> pyval list list \<Rightarrow> parameter list \<Rightarrow> kind_ctor option \<Rightarrow> error + design_obj list" where
  "design_generator L [] ps kd = Inr []"
| "design_generator L (design # ds) ps kd =
     (case design_dict L (zip ps design) [] of
        Inl e \<Rightarrow> Inl e
      | Inr dd \<Rightarrow>
          (case apply_kind L kd dd of
             Inl e \<Rightarrow> Inl e
           | Inr obj \<Rightarrow>
               (case design_generator L ds ps kd of
                  Inl e \<Rightarrow> Inl e
                | Inr objs \<Rightarrow> Inr (obj # objs))))"

text \<open>\<^verbatim>\<open>partial_designs_generator\<close>'s body: a copy of the factorial part, updated with the
  other part.\<close>

fun merge_parts :: "design_obj \<Rightarrow> design_obj \<Rightarrow> design_obj" where
  "merge_parts (Scenario nm d) other = Scenario nm (AList.updates (map fst (items other)) (map snd (items other)) d)"
| "merge_parts (Policy nm d) other = Policy nm (AList.updates (map fst (items other)) (map snd (items other)) d)"

text \<open>
  Iterating a design set to its end: \<^verbatim>\<open>DefaultDesigns.__iter__\<close>, and
  \<^verbatim>\<open>PartialFactorialDesigns.__iter__\<close> with \<^verbatim>\<open>itertools.product\<close> of the two parts.
\<close>

fun iterate :: "lib \<Rightarrow> design_set \<Rightarrow> error + design_obj list" where
  "iterate L (Default d) = design_generator L (designs d) (parameters d) (kind_of d)"
| "iterate L (Partial d) =
     (case design_generator L (designs (ff_designs d)) (parameters (ff_designs d))
             (kind_of (ff_designs d)) of
        Inl e \<Rightarrow> Inl e
      | Inr fs \<Rightarrow>
          (case design_generator L (designs (other_designs d)) (parameters (other_designs d))
                  (kind_of (other_designs d)) of
             Inl e \<Rightarrow> Inl e
           | Inr os \<Rightarrow> Inr (map (\<lambda>(f, other). merge_parts f other) (List.product fs os))))"


section \<open>Experiments and the result aggregator\<close>

text \<open>
  Modelled from the spec: a model (\<^verbatim>\<open>model.py\<close>, not among the sources) declares its own
  uncertainties, levers and outcomes.
\<close>

record model =
  model_name :: string
  uncertainties :: "parameter list"
  levers :: "parameter list"
  outcomes :: "string list"

text \<open>The argument \<^verbatim>\<open>models\<close>: one model, or a collection of models.\<close>

datatype models_arg = OneModel model | ModelList "model list"

text \<open>\<^verbatim>\<open>BaseEvaluator.__init__\<close>: a single model is wrapped into a list.\<close>

fun msis_of :: "models_arg \<Rightarrow> model list" where
  "msis_of (OneModel m) = [m]"
| "msis_of (ModelList ms) = ms"

text \<open>
  \<^verbatim>\<open>n_models\<close> in \<^verbatim>\<open>perform_experiments\<close>: \<^verbatim>\<open>len(models)\<close>, and 1 when that raises
  \<^verbatim>\<open>TypeError\<close> (a single model has no length).
\<close>

fun n_models_of :: "models_arg \<Rightarrow> int" where
  "n_models_of (OneModel m) = 1"
| "n_models_of (ModelList ms) = int (length ms)"

text \<open>What is handed to an evaluator as scenarios or policies: a collection, or a design set
  that is iterated when the experiments are generated.\<close>

datatype iterable = Listed "design_obj list" | Sampled design_set

fun iter_all :: "lib \<Rightarrow> iterable \<Rightarrow> error + design_obj list" where
  "iter_all L (Listed xs) = Inr xs"
| "iter_all L (Sampled d) = iterate L d"

record experiment_rec =
  model_of :: string
  policy_of :: design_obj
  scenario_of :: design_obj
  experiment_id :: nat

text \<open>
  Modelled from the spec: \<^verbatim>\<open>experiment_generator\<close> (in \<^verbatim>\<open>parameters.py\<close>, not among the
  sources) cross-products scenarios, policies and models in a fixed nesting order and
  numbers the experiments with increasing integers from 0. An exception raised while a
  design set is iterated surfaces when the generator is first advanced.
\<close>

definition experiment_generator ::
  "lib \<Rightarrow> iterable \<Rightarrow> model list \<Rightarrow> iterable \<Rightarrow> error + experiment_rec list" where
  "experiment_generator L scenarios msis policies =
     (case iter_all L scenarios of
        Inl e \<Rightarrow> Inl e
      | Inr ss \<Rightarrow>
          (case iter_all L policies of
             Inl e \<Rightarrow> Inl e
           | Inr ps \<Rightarrow>
               Inr (map (\<lambda>(i, s, p, m).
                           \<lparr>model_of = model_name m, policy_of = p, scenario_of = s,
                            experiment_id = i\<rparr>)
                      (enumerate 0 (List.product ss (List.product ps msis))))))"

type_synonym outcome = "(string \<times> real) list"

text \<open>
  Modelled from the spec: the result aggregator \<^verbatim>\<open>DefaultCallback\<close> (in \<^verbatim>\<open>callbacks.py\<close>,
  not among the sources). It preallocates one row per expected experiment; each call
  validates the outcome mapping against the declared outcomes, writes the row at the
  experiment's id (a second write to a row is fatal) and increments the counter, which
  the source reads as \<^verbatim>\<open>callback.i\<close>.
\<close>

record callback =
  cb_i :: nat
  cb_outcomes :: "string list"
  cb_cases :: "experiment_rec option list"
  cb_results :: "outcome option list"

definition DefaultCallback ::
  "parameter list \<Rightarrow> parameter list \<Rightarrow> string list \<Rightarrow> int \<Rightarrow> callback" where
  "DefaultCallback us ls outs nr_experiments =
     \<lparr>cb_i = 0, cb_outcomes = outs,
      cb_cases = replicate (nat nr_experiments) None,
      cb_results = replicate (nat nr_experiments) None\<rparr>"

definition callback_call :: "callback \<Rightarrow> experiment_rec \<Rightarrow> outcome \<Rightarrow> error + callback" where
  "callback_call cb x result =
     (if \<not> list_all (\<lambda>nm. map_of result nm \<noteq> None) (cb_outcomes cb) then Inl EMAError
      else if length (cb_results cb) \<le> experiment_id x then Inl EMAError
      else if cb_results cb ! experiment_id x \<noteq> None then Inl EMAError
      else Inr (cb\<lparr>cb_i := cb_i cb + 1,
                   cb_cases := (cb_cases cb)[experiment_id x := Some x],
                   cb_results := (cb_results cb)[experiment_id x := Some result]\<rparr>))"

definition get_results :: "callback \<Rightarrow> experiment_rec option list \<times> outcome option list" where
  "get_results cb = (cb_cases cb, cb_results cb)"

section \<open>Evaluators\<close>

text \<open>
  The state of the Python process that the evaluators and \<^verbatim>\<open>perform_experiments\<close> act on:
  the current working directory, the position of the random number generator, a log of
  the steps taken (kept for stating in which order things happen) and whatever else the
  models keep.
\<close>

datatype event =
  Sampled_uncertainties | Sampled_levers | Created_callback int | Created_evaluator
  | Evaluated_experiments

record 'w process =
  cwd :: string
  rng :: nat
  events :: "event list"
  other_state :: 'w

type_synonym ('w, 'a) action = "'w process \<Rightarrow> (error + 'a) \<times> 'w process"

definition log_event :: "event \<Rightarrow> 'w process \<Rightarrow> 'w process" where
  "log_event ev s = s\<lparr>events := events s @ [ev]\<rparr>"

text \<open>
  The collaborators of the evaluators that the repository's sources do not define. They
  are parameters of the model:
  \<^item> \<open>lib_of\<close>: the library primitives of the samplers;
  \<^item> \<open>determine_objects\<close>, \<open>determine_outcomes\<close>: \<^verbatim>\<open>util.determine_objects\<close> on the
    parameters (uncertainties or levers) and on the outcomes of the models;
  \<^item> \<open>salib_generate_designs\<close>: \<^verbatim>\<open>generate_designs\<close> of the samplers of
    \<^verbatim>\<open>salib_samplers.py\<close>;
  \<^item> \<open>run_experiment\<close>, \<open>cleanup\<close>: the methods of \<^verbatim>\<open>ExperimentRunner\<close>, which run a model
    and may change the process state or raise;
  \<^item> \<open>dir_exists\<close>: whether \<^verbatim>\<open>os.chdir\<close> to a path succeeds.
\<close>

record 'w env =
  lib_of :: lib
  determine_objects :: "models_arg \<Rightarrow> string \<Rightarrow> bool \<Rightarrow> error + parameter list"
  determine_outcomes :: "models_arg \<Rightarrow> bool \<Rightarrow> error + string list"
  salib_generate_designs :: "string \<Rightarrow> parameter list \<Rightarrow> int \<Rightarrow> nat \<Rightarrow> design_set sampling"
  run_experiment :: "experiment_rec \<Rightarrow> ('w, outcome) action"
  cleanup :: "('w, unit) action"
  dir_exists :: "'w process \<Rightarrow> string \<Rightarrow> bool"

text \<open>\<^verbatim>\<open>os.chdir(path)\<close>.\<close>

definition os_chdir :: "'w env \<Rightarrow> string \<Rightarrow> ('w, unit) action" where
  "os_chdir E path s =
     (if dir_exists E s path then (Inr (), s\<lparr>cwd := path\<rparr>) else (Inl OSError, s))"

text \<open>
  The loop of \<^verbatim>\<open>SequentialEvaluator.evaluate_experiments\<close>: run an experiment, call the
  callback with its result, go on with the next; the first exception ends it. The
  callback is any callable \<open>call\<close> acting on its own state \<open>cb\<close> and on the process.
\<close>

fun run_experiments ::
  "'w env \<Rightarrow> ('c \<Rightarrow> experiment_rec \<Rightarrow> outcome \<Rightarrow> ('w, 'c) action) \<Rightarrow> experiment_rec list \<Rightarrow> 'c
     \<Rightarrow> ('w, 'c) action" where
  "run_experiments E call [] cb s = (Inr cb, s)"
| "run_experiments E call (x # xs) cb s =
     (case run_experiment E x s of
        (Inl e, s1) \<Rightarrow> (Inl e, s1)
      | (Inr result, s1) \<Rightarrow>
          (case call cb x result s1 of
             (Inl e, s2) \<Rightarrow> (Inl e, s2)
           | (Inr cb', s2) \<Rightarrow> run_experiments E call xs cb' s2))"

text \<open>
  \<^verbatim>\<open>SequentialEvaluator.evaluate_experiments\<close>. The working directory is read before the
  generator is first advanced; building the map of models and the runner is taken to
  change nothing and to raise nothing.
\<close>

definition sequential_evaluate_experiments ::
  "'w env \<Rightarrow> model list \<Rightarrow> ('c \<Rightarrow> experiment_rec \<Rightarrow> outcome \<Rightarrow> ('w, 'c) action)
     \<Rightarrow> iterable \<Rightarrow> iterable \<Rightarrow> 'c \<Rightarrow> ('w, 'c) action" where
  "sequential_evaluate_experiments E msis call scenarios policies cb s =
     (let cwd0 = cwd s
      in case experiment_generator (lib_of E) scenarios msis policies of
           Inl e \<Rightarrow> (Inl e, s)
         | Inr ex_gen \<Rightarrow>
             (case run_experiments E call ex_gen cb s of
                (Inl e, s1) \<Rightarrow> (Inl e, s1)
              | (Inr cb1, s1) \<Rightarrow>
                  (case cleanup E s1 of
                     (Inl e, s2) \<Rightarrow> (Inl e, s2)
                   | (Inr u, s2) \<Rightarrow>
                       (case os_chdir E cwd0 s2 of
                          (Inl e, s3) \<Rightarrow> (Inl e, s3)
                        | (Inr u', s3) \<Rightarrow> (Inr cb1, s3)))))"

text \<open>
  The process pool of \<^verbatim>\<open>MultiprocessingPoolEvaluator\<close>, with the documented behaviour of
  \<^verbatim>\<open>multiprocessing.Pool\<close>: \<^verbatim>\<open>terminate\<close> stops the workers at once and drops the
  outstanding work; \<^verbatim>\<open>close\<close> stops the pool from taking new tasks; \<^verbatim>\<open>join\<close>, allowed
  only after one of the two, waits until the workers have exited, that is until the
  outstanding tasks are done.
\<close>

datatype pool_call = Terminate | Close | Join

record pool =
  accepting :: bool
  pending :: nat
  done_tasks :: nat
  dropped :: nat
  calls :: "pool_call list"

definition pool_terminate :: "pool \<Rightarrow> pool" where
  "pool_terminate p =
     p\<lparr>accepting := False, dropped := dropped p + pending p, pending := 0,
       calls := calls p @ [Terminate]\<rparr>"

definition pool_close :: "pool \<Rightarrow> pool" where
  "pool_close p = p\<lparr>accepting := False, calls := calls p @ [Close]\<rparr>"

definition pool_join :: "pool \<Rightarrow> error + pool" where
  "pool_join p =
     (if accepting p then Inl ValueError
      else Inr (p\<lparr>done_tasks := done_tasks p + pending p, pending := 0,
                  calls := calls p @ [Join]\<rparr>))"

text \<open>
  \<^verbatim>\<open>MultiprocessingPoolEvaluator.__exit__\<close>, on the attribute \<^verbatim>\<open>_pool\<close> (\<^verbatim>\<open>None\<close> until
  \<^verbatim>\<open>__enter__\<close> has run). The argument is the exception that left the \<^verbatim>\<open>with\<close> block, if
  any; the result is the method's return value, \<open>Some False\<close> or \<^verbatim>\<open>None\<close>.
\<close>

definition pool_exit :: "pool option \<Rightarrow> error option \<Rightarrow> (error + bool option) \<times> pool option" where
  "pool_exit pl exc_type =
     (case pl of
        None \<Rightarrow> (Inl AttributeError, pl)
      | Some p \<Rightarrow>
          if exc_type \<noteq> None then (Inr (Some False), Some (pool_terminate p))
          else (case pool_join (pool_close p) of
                  Inl e \<Rightarrow> (Inl e, Some (pool_close p))
                | Inr p' \<Rightarrow> (Inr None, Some p')))"

text \<open>
  Python's \<^verbatim>\<open>with\<close> statement around a block \<open>body\<close> that uses the pool: \<^verbatim>\<open>__exit__\<close> runs
  on every way out, and an exception of the block is raised again unless \<^verbatim>\<open>__exit__\<close>
  returns a true value.
\<close>

definition with_pool ::
  "pool option \<Rightarrow> (pool option \<Rightarrow> (error + 'a) \<times> pool option) \<Rightarrow> (error + 'a option) \<times> pool option" where
  "with_pool pl body =
     (case body pl of
        (Inl e, pl1) \<Rightarrow>
          (case pool_exit pl1 (Some e) of
             (Inl e', pl2) \<Rightarrow> (Inl e', pl2)
           | (Inr r, pl2) \<Rightarrow> if r = Some True then (Inr None, pl2) else (Inl e, pl2))
      | (Inr a, pl1) \<Rightarrow>
          (case pool_exit pl1 None of
             (Inl e', pl2) \<Rightarrow> (Inl e', pl2)
           | (Inr r, pl2) \<Rightarrow> (Inr (Some a), pl2)))"

section \<open>Running the experiments\<close>

text \<open>The table \<^verbatim>\<open>SAMPLERS\<close>, and the call \<^verbatim>\<open>SAMPLERS[key]()\<close> of a sampler class.\<close>

datatype sampler_class =
  LHSSampler_class | MonteCarloSampler_class | FullFactorialSampler_class
  | PartialFactorialSampler_class | SobolSampler | MorrisSampler | FASTSampler

datatype sampler_obj = In_repository sampler | In_salib string

definition SAMPLERS :: "(string \<times> sampler_class) list" where
  "SAMPLERS =
     [(''lhs'', LHSSampler_class), (''mc'', MonteCarloSampler_class),
      (''ff'', FullFactorialSampler_class), (''pff'', PartialFactorialSampler_class),
      (''sobol'', SobolSampler), (''morris'', MorrisSampler), (''fast'', FASTSampler)]"

fun instantiate :: "sampler_class \<Rightarrow> error + sampler_obj" where
  "instantiate LHSSampler_class = Inr (In_repository (Base LHSSampler))"
| "instantiate MonteCarloSampler_class = Inr (In_repository (Base MonteCarloSampler))"
| "instantiate FullFactorialSampler_class = Inr (In_repository FullFactorialSampler)"
| "instantiate PartialFactorialSampler_class =
     (case PartialFactorialSampler_init ''LHS'' of
        Inl e \<Rightarrow> Inl e
      | Inr s \<Rightarrow> Inr (In_repository (PartialFactorialSampler s)))"
| "instantiate SobolSampler = Inr (In_salib ''sobol'')"
| "instantiate MorrisSampler = Inr (In_salib ''morris'')"
| "instantiate FASTSampler = Inr (In_salib ''fast'')"

text \<open>\<^verbatim>\<open>sampler.generate_designs(parameters, n)\<close> on the process state.\<close>

definition obj_generate_designs ::
  "'w env \<Rightarrow> sampler_obj \<Rightarrow> parameter list \<Rightarrow> int \<Rightarrow> ('w, design_set) action" where
  "obj_generate_designs E smp ps n s =
     (case (case smp of
              In_repository r \<Rightarrow> sampler_generate_designs (lib_of E) r ps n (rng s)
            | In_salib nm \<Rightarrow> salib_generate_designs E nm ps n (rng s)) of
        (r, k') \<Rightarrow> (r, s\<lparr>rng := k'\<rparr>))"

text \<open>\<^verbatim>\<open>sample_uncertainties\<close> and \<^verbatim>\<open>sample_levers\<close>.\<close>

definition sample_uncertainties ::
  "'w env \<Rightarrow> models_arg \<Rightarrow> int \<Rightarrow> bool \<Rightarrow> sampler_obj \<Rightarrow> ('w, design_set) action" where
  "sample_uncertainties E models n_samples un smp s =
     (case determine_objects E models ''uncertainties'' un of
        Inl e \<Rightarrow> (Inl e, s)
      | Inr us \<Rightarrow>
          (case obj_generate_designs E smp us n_samples (log_event Sampled_uncertainties s) of
             (Inl e, s1) \<Rightarrow> (Inl e, s1)
           | (Inr samples, s1) \<Rightarrow> (Inr (set_kind ScenarioKind samples), s1)))"

definition sample_levers ::
  "'w env \<Rightarrow> models_arg \<Rightarrow> int \<Rightarrow> bool \<Rightarrow> sampler_obj \<Rightarrow> ('w, design_set) action" where
  "sample_levers E models n_samples un smp s =
     (case determine_objects E models ''levers'' un of
        Inl e \<Rightarrow> (Inl e, s)
      | Inr ls \<Rightarrow>
          (case obj_generate_designs E smp ls n_samples (log_event Sampled_levers s) of
             (Inl e, s1) \<Rightarrow> (Inl e, s1)
           | (Inr samples, s1) \<Rightarrow> (Inr (set_kind PolicyKind samples), s1)))"

text \<open>The attribute \<^verbatim>\<open>parameters\<close> of a design set.\<close>

fun parameters_attr :: "design_set \<Rightarrow> parameter list" where
  "parameters_attr (Default d) = parameters d"
| "parameters_attr (Partial d) = pf_parameters d"

text \<open>
  The arguments \<^verbatim>\<open>scenarios\<close> and \<^verbatim>\<open>policies\<close> of \<^verbatim>\<open>perform_experiments\<close>: a number of
  samples, or a collection. \<^verbatim>\<open>not scenarios\<close> holds for 0 and for an empty collection.
\<close>

datatype axis_spec = Count int | Given "design_obj list"

fun falsy :: "axis_spec \<Rightarrow> bool" where
  "falsy (Count n) = (n = 0)"
| "falsy (Given xs) = (xs = [])"

text \<open>
  The two \<^verbatim>\<open>if\<close>/\<^verbatim>\<open>elif\<close>/\<^verbatim>\<open>else\<close> blocks of \<^verbatim>\<open>perform_experiments\<close>: what is evaluated on
  an axis, the parameters of the axis, and the number of scenarios or policies.
\<close>

definition scenario_axis ::
  "'w env \<Rightarrow> models_arg \<Rightarrow> axis_spec \<Rightarrow> bool \<Rightarrow> string
     \<Rightarrow> ('w, iterable \<times> parameter list \<times> int) action" where
  "scenario_axis E models scenarios uncertainty_union uncertainty_sampling s =
     (if falsy scenarios then (Inr (Listed [Scenario ''None'' []], [], 1), s)
      else case scenarios of
        Count n \<Rightarrow>
          (case lookup SAMPLERS uncertainty_sampling of
             Inl e \<Rightarrow> (Inl e, s)
           | Inr cls \<Rightarrow>
               (case instantiate cls of
                  Inl e \<Rightarrow> (Inl e, s)
                | Inr smp \<Rightarrow>
                    (case sample_uncertainties E models n uncertainty_union smp s of
                       (Inl e, s1) \<Rightarrow> (Inl e, s1)
                     | (Inr d, s1) \<Rightarrow> (Inr (Sampled d, parameters_attr d, reported_n d), s1))))
      | Given xs \<Rightarrow>
          (case determine_objects E models ''uncertainties'' True of
             Inl e \<Rightarrow> (Inl e, s)
           | Inr us \<Rightarrow>
               (Inr (Listed xs, filter (\<lambda>u. name u \<in> fst ` set (items (hd xs))) us,
                     int (length xs)), s)))"

definition policy_axis ::
  "'w env \<Rightarrow> models_arg \<Rightarrow> axis_spec \<Rightarrow> bool \<Rightarrow> string
     \<Rightarrow> ('w, iterable \<times> parameter list \<times> int) action" where
  "policy_axis E models policies lever_union levers_sampling s =
     (if falsy policies then (Inr (Listed [Policy ''None'' []], [], 1), s)
      else case policies of
        Count n \<Rightarrow>
          (case lookup SAMPLERS levers_sampling of
             Inl e \<Rightarrow> (Inl e, s)
           | Inr cls \<Rightarrow>
               (case instantiate cls of
                  Inl e \<Rightarrow> (Inl e, s)
                | Inr smp \<Rightarrow>
                    (case sample_levers E models n lever_union smp s of
                       (Inl e, s1) \<Rightarrow> (Inl e, s1)
                     | (Inr d, s1) \<Rightarrow> (Inr (Sampled d, parameters_attr d, reported_n d), s1))))
      | Given xs \<Rightarrow>
          (case determine_objects E models ''levers'' True of
             Inl e \<Rightarrow> (Inl e, s)
           | Inr ls \<Rightarrow>
               (Inr (Listed xs, filter (\<lambda>l. name l \<in> fst ` set (items (hd xs))) ls,
                     int (length xs)), s)))"

text \<open>An evaluator: its method \<^verbatim>\<open>evaluate_experiments(scenarios, policies, callback)\<close>.\<close>

type_synonym 'w evaluator = "iterable \<Rightarrow> iterable \<Rightarrow> callback \<Rightarrow> ('w, callback) action"

text \<open>\<^verbatim>\<open>SequentialEvaluator(models)\<close>, the evaluator used when none is given.\<close>

definition SequentialEvaluator :: "'w env \<Rightarrow> models_arg \<Rightarrow> 'w evaluator" where
  "SequentialEvaluator E models =
     sequential_evaluate_experiments E (msis_of models)
       (\<lambda>cb x result s. (callback_call cb x result, s))"

text \<open>
  \<^verbatim>\<open>perform_experiments\<close>. The reporting interval only affects logging and is left out.
\<close>

definition perform_experiments ::
  "'w env \<Rightarrow> models_arg \<Rightarrow> axis_spec \<Rightarrow> axis_spec \<Rightarrow> 'w evaluator option \<Rightarrow> bool \<Rightarrow> bool \<Rightarrow> bool
     \<Rightarrow> string \<Rightarrow> string
     \<Rightarrow> ('w, experiment_rec option list \<times> outcome option list) action" where
  "perform_experiments E models scenarios policies evaluator uncertainty_union lever_union
       outcome_union uncertainty_sampling levers_sampling s =
     (if falsy scenarios \<and> falsy policies then (Inl EMAError, s)
      else
        case scenario_axis E models scenarios uncertainty_union uncertainty_sampling s of
          (Inl e, s1) \<Rightarrow> (Inl e, s1)
        | (Inr (scs, us, n_scenarios), s1) \<Rightarrow>
            (case policy_axis E models policies lever_union levers_sampling s1 of
               (Inl e, s2) \<Rightarrow> (Inl e, s2)
             | (Inr (pols, ls, n_policies), s2) \<Rightarrow>
                 (let n_models = n_models_of models
                  in case determine_outcomes E models outcome_union of
                       Inl e \<Rightarrow> (Inl e, s2)
                     | Inr outs \<Rightarrow>
                         (let nr_of_exp = n_models * n_scenarios * n_policies;
                              cb0 = DefaultCallback us ls outs nr_of_exp;
                              s3 = log_event (Created_callback nr_of_exp) s2;
                              (ev, s4) =
                                 (case evaluator of
                                    None \<Rightarrow>
                                      (SequentialEvaluator E models,
                                       log_event Created_evaluator s3)
                                  | Some ev \<Rightarrow> (ev, s3))
                          in case ev scs pols cb0 (log_event Evaluated_experiments s4) of
                               (Inl e, s5) \<Rightarrow> (Inl e, s5)
                             | (Inr cb, s5) \<Rightarrow>
                                 if int (cb_i cb) \<noteq> nr_of_exp then (Inl EMAError, s5)
                                 else (Inr (get_results cb), s5)))))"

section \<open>Example inputs\<close>

text \<open>
  An instance of the library primitives, for evaluating the model at concrete inputs:
  the shuffle reverses the array, every uniform variate is one half, the quantile
  function is that of the uniform distribution on the unit interval, no string is a
  number, and every assignment is called \<open>d\<close>.
\<close>

definition test_lib :: lib where
  "test_lib =
     \<lparr>perm = (\<lambda>k n j. n - 1 - j), u01 = (\<lambda>k j. 1 / 2), ppf = (\<lambda>d q. q),
      rvs1 = (\<lambda>d k j. 1 / 2), int_of_str = (\<lambda>s. None), representation = (\<lambda>d. ''d'')\<rparr>"

text \<open>Example parameters for evaluating the model at concrete inputs.\<close>

definition example_parameter :: "string \<Rightarrow> param_kind \<Rightarrow> parameter" where
  "example_parameter nm kd =
     \<lparr>name = nm, kind = kd, dist = ''uniform'', params = [0, 1], lower_bound = 0,
      upper_bound = 1, resolution = [], pff = False, categories = []\<rparr>"


text \<open>
  An example model, an instance of the collaborators (every model run writes the outcome
  \<open>y\<close> and leaves the process in another working directory), and an initial process
  state and pool.
\<close>

definition test_model :: model where
  "test_model =
     \<lparr>model_name = ''m'',
      uncertainties = [example_parameter ''x1'' RealParameter, example_parameter ''x2'' RealParameter],
      levers = [example_parameter ''l1'' RealParameter],
      outcomes = [''y'']\<rparr>"

definition test_env :: "unit env" where
  "test_env =
     \<lparr>lib_of = test_lib,
      determine_objects = (\<lambda>models attr un.
         Inr (concat (map (if attr = ''levers'' then levers else uncertainties) (msis_of models)))),
      determine_outcomes = (\<lambda>models un. Inr (concat (map outcomes (msis_of models)))),
      salib_generate_designs = (\<lambda>nm ps n k. (Inl RunError, k)),
      run_experiment = (\<lambda>x s. (Inr [(''y'', 1)], s\<lparr>cwd := ''/tmp/run''\<rparr>)),
      cleanup = (\<lambda>s. (Inr (), s)),
      dir_exists = (\<lambda>s path. True)\<rparr>"

definition test_process :: "unit process" where
  "test_process = \<lparr>cwd = ''/home'', rng = 0, events = [], other_state = ()\<rparr>"

definition test_pool :: pool where
  "test_pool = \<lparr>accepting = True, pending = 0, done_tasks = 0, dropped = 0, calls = []\<rparr>"


section \<open>Properties of the samplers\<close>

lemma length_shuffle: "length (shuffle L k xs) = length xs"
  by (simp add: shuffle_def)


lemma linspace_perc:
  assumes "1 \<le> n"
  shows "linspace 0 ((of_int n - 1) / of_int n) n =
           Inr (map (\<lambda>i. of_nat i / of_int n) [0..<nat n])"
proof (cases "n = 1")
  case True
  then show ?thesis by (simp add: linspace_def)
next
  case False
  with assms have n2: "2 \<le> n" by simp
  have "\<And>i. real i * ((real_of_int n - 1) / real_of_int n / (real_of_int n - 1)) =
          real i / real_of_int n"
    using n2 by (simp add: field_simps)
  then show ?thesis using n2 False by (simp add: linspace_def)
qed

lemma lhs_ok:
  assumes n: "1 \<le> n" and d: "call_dist d parms = Inr fr"
  shows "lhs L d parms n k =
    (Inr (map (\<lambda>j. ppf L fr (map (\<lambda>i. real i / of_int n) [0..<nat n] ! perm L k (nat n) j
                  + 1 / of_int n * u01 L (k + 1) j)) [0..<nat n]), k + 2)"
  using n by (simp add: lhs_def linspace_perc[OF n] d Let_def shuffle_def o_def)






lemma lhs_length:
  assumes "lhs L d parms n k = (Inr v, k')"
  shows "length v = nat n \<and> 1 \<le> n \<and> k' = k + 2"
proof -
  from assms have n0: "n \<noteq> 0" by (auto simp: lhs_def)
  from assms n0 have "\<not> n < 0" by (auto simp: lhs_def linspace_def)
  with n0 have n1: "1 \<le> n" by simp
  from assms obtain fr where "call_dist d parms = Inr fr"
    using n1 by (auto simp: lhs_def linspace_perc[OF n1] Let_def split: sum.splits)
  from lhs_ok[OF n1 this, of L k] assms n1 show ?thesis by auto
qed

lemma sample_length:
  assumes "sample L s dn ps n k = (Inr v, k')"
  shows "length v = nat n"
proof (cases s)
  case LHSSampler
  with assms show ?thesis by (auto split: sum.splits dest: lhs_length)
next
  case MonteCarloSampler
  with assms show ?thesis by (auto split: sum.splits if_splits)
qed



lemma generate_samples_inv:
  assumes "generate_samples L s ps n acc k = (Inr d, k')"
    and "\<forall>x c. map_of acc x = Some c \<longrightarrow> length c = nat n"
  shows "(\<forall>x c. map_of d x = Some c \<longrightarrow> length c = nat n) \<and>
         (\<forall>p\<in>set ps. map_of d (name p) \<noteq> None) \<and>
         (\<forall>x. map_of acc x \<noteq> None \<longrightarrow> map_of d x \<noteq> None)"
  using assms
proof (induction ps arbitrary: acc k)
  case Nil
  then show ?case by simp
next
  case (Cons p ps)
  from Cons.prems(1) obtain v k1 where
    sv: "sample L s (dist p) (params p) n k = (Inr v, k1)"
    and rec: "generate_samples L s ps n (AList.update (name p) (map (\<lambda>x. Val (Num x)) v) acc) k1 = (Inr d, k')"
    by (auto split: prod.splits sum.splits)
  have lv: "length v = nat n" using sample_length[OF sv] .
  have inv: "\<forall>x c. map_of (AList.update (name p) (map (\<lambda>x. Val (Num x)) v) acc) x = Some c \<longrightarrow> length c = nat n"
    using Cons.prems(2) lv by (auto simp: update_conv')
  from Cons.IH[OF rec inv] show ?case by (auto simp: update_conv')
qed

lemma columns_ok:
  "columns d ps = Inr cols \<Longrightarrow>
     length cols = length ps \<and> (\<forall>c\<in>set cols. \<exists>x. map_of d x = Some c)"
proof (induction ps arbitrary: cols)
  case Nil
  then show ?case by simp
next
  case (Cons p ps)
  then show ?case
    by (auto simp: lookup_def split: sum.splits option.splits)
qed

lemma columns_total:
  "\<forall>p\<in>set ps. map_of d (name p) \<noteq> None \<Longrightarrow> \<exists>cols. columns d ps = Inr cols"
  by (induction ps) (auto simp: lookup_def split: option.splits)

lemma zip_star_length:
  assumes "cols \<noteq> []" and "\<forall>c\<in>set cols. length c = m"
  shows "length (zip_star cols) = m"
proof -
  have "set (map length cols) = {m}" using assms by (cases cols) auto
  then show ?thesis using assms(1) by (simp add: zip_star_def)
qed

lemma generate_designs_count:
  assumes "generate_designs L s ps n k = (Inr d, k')"
  shows "nr d = n \<and> parameters d = sort_key name ps \<and> kind_of d = None \<and>
         (ps \<noteq> [] \<longrightarrow> length (designs d) = nat n)"
proof -
  from assms obtain sampled cols where
    gs: "generate_samples L s (sort_key name ps) n [] k = (Inr sampled, k')"
    and cs: "columns sampled (sort_key name ps) = Inr cols"
    and d: "d = DefaultDesigns (zip_star cols) (sort_key name ps) n"
    by (auto simp: generate_designs_def Let_def split: prod.splits sum.splits)
  have inv: "\<forall>x c. map_of sampled x = Some c \<longrightarrow> length c = nat n"
    using generate_samples_inv[OF gs] by simp
  have lc: "length cols = length ps" and all: "\<forall>c\<in>set cols. length c = nat n"
    using columns_ok[OF cs] inv by auto
  have "length (zip_star cols) = nat n" if "ps \<noteq> []"
  proof -
    from that lc have "cols \<noteq> []" by auto
    from zip_star_length[OF this all] show ?thesis .
  qed
  then show ?thesis by (simp add: d DefaultDesigns_def)
qed

lemma design_generator_length:
  "design_generator L ds ps kd = Inr objs \<Longrightarrow> length objs = length ds"
  by (induction ds arbitrary: objs) (auto split: sum.splits)












text \<open>
  Where the total a design set reports is the number of designs it yields: for the
  Latin Hypercube and Monte Carlo samplers over a non-empty parameter list (the total
  is the requested \<open>n\<close>), for the Full Factorial sampler over parameters with distinct
  names (the total is the product of the numbers of levels), and for the Partial
  Factorial sampler when at least one parameter is not factorial (the total is the
  product of the totals of the two parts).
\<close>

lemma update_absent: "k \<notin> fst ` set al \<Longrightarrow> AList.update k v al = al @ [(k, v)]"
  by (induction al) auto

lemma ff_generate_samples_distinct:
  assumes "ff_generate_samples ps n acc = Inr d"
    and "distinct (map name ps)"
    and "name ` set ps \<inter> fst ` set acc = {}"
  shows "\<exists>cols. length cols = length ps \<and>
           (\<forall>i<length ps. ff_cats (ps ! i) n = Inr (cols ! i)) \<and>
           d = acc @ zip (map name ps) cols"
  using assms
proof (induction ps arbitrary: acc)
  case Nil
  then show ?case by simp
next
  case (Cons p ps)
  from Cons.prems(1) obtain c where
    c: "ff_cats p n = Inr c"
    and r: "ff_generate_samples ps n (AList.update (name p) c acc) = Inr d"
    by (auto split: sum.splits)
  have ab: "name p \<notin> fst ` set acc" using Cons.prems(3) by auto
  have u: "AList.update (name p) c acc = acc @ [(name p, c)]" by (rule update_absent[OF ab])
  have d: "distinct (map name ps)" using Cons.prems(2) by simp
  have dj: "name ` set ps \<inter> fst ` set (acc @ [(name p, c)]) = {}"
    using Cons.prems(2,3) by auto
  from Cons.IH[OF r[unfolded u] d dj] obtain cols where
    cols: "length cols = length ps" "\<forall>i<length ps. ff_cats (ps ! i) n = Inr (cols ! i)"
      "d = (acc @ [(name p, c)]) @ zip (map name ps) cols"
    by blast
  have "\<forall>i<length (p # ps). ff_cats ((p # ps) ! i) n = Inr ((c # cols) ! i)"
    using c cols(2) by (auto simp: nth_Cons split: nat.splits)
  moreover have "d = acc @ zip (map name (p # ps)) (c # cols)" using cols(3) by simp
  moreover have "length (c # cols) = length (p # ps)" using cols(1) by simp
  ultimately show ?case by blast
qed

lemma columns_zip:
  assumes "distinct (map name ps)" and "length cols = length ps"
  shows "columns (zip (map name ps) cols) ps = Inr cols"
proof -
  have "columns (zip (map name qs) cs) (drop i qs) = Inr (drop i cs)"
    if "distinct (map name qs)" "length cs = length qs" for qs :: "parameter list" and cs :: "'a list" and i
    using that
  proof (induction "length qs - i" arbitrary: i)
    case 0
    then show ?case by simp
  next
    case (Suc m)
    then have i: "i < length qs" by simp
    have m: "m = length qs - Suc i" using Suc.hyps(2) by simp
    have ih: "columns (zip (map name qs) cs) (drop (Suc i) qs) = Inr (drop (Suc i) cs)"
      using Suc.hyps(1)[OF m Suc.prems] .
    have "map_of (zip (map name qs) cs) (map name qs ! i) = Some (cs ! i)"
      using Suc.prems i by (intro map_of_zip_nth) auto
    then have lk: "lookup (zip (map name qs) cs) (name (qs ! i)) = Inr (cs ! i)"
      using i by (simp add: lookup_def)
    have dq: "drop i qs = qs ! i # drop (Suc i) qs" using i by (simp add: Cons_nth_drop_Suc)
    have dc: "drop i cs = cs ! i # drop (Suc i) cs" using i Suc.prems(2) by (simp add: Cons_nth_drop_Suc)
    show ?case unfolding dq dc using lk ih by simp
  qed
  from this[OF assms, of 0] show ?thesis by simp
qed

lemma fold_lengths:
  "fold (\<lambda>v nr_designs. nr_designs * int (length v)) cols a =
     a * int (foldr (*) (map length cols) 1)"
  by (induction cols arbitrary: a) (simp_all add: algebra_simps)

lemma ff_designs_count:
  assumes "ff_generate_designs ps n = Inr d" and "distinct (map name ps)"
  shows "nr d = int (length (designs d)) \<and> parameters d = sort_key name ps \<and>
     (\<exists>cols. length cols = length ps \<and>
        (\<forall>i<length ps. ff_cats (sort_key name ps ! i) n = Inr (cols ! i)) \<and>
        nr d = prod_list (map (\<lambda>c. int (length c)) cols))"
proof -
  let ?sp = "sort_key name ps"
  from assms(1) obtain samples cols0 where
    g: "ff_generate_samples ?sp n [] = Inr samples"
    and c: "columns samples ?sp = Inr cols0"
    and d: "d = DefaultDesigns (product_lists cols0) ?sp (determine_nr_of_designs samples)"
    by (auto simp: ff_generate_designs_def Let_def split: sum.splits)
  have ds: "distinct (map name ?sp)"
    using assms(2) by (metis distinct_map distinct_sort set_sort)
  from ff_generate_samples_distinct[OF g ds] obtain cols where
    cols: "length cols = length ?sp" "\<forall>i<length ?sp. ff_cats (?sp ! i) n = Inr (cols ! i)"
      "samples = zip (map name ?sp) cols"
    by auto
  have "columns samples ?sp = Inr cols" unfolding cols(3) by (rule columns_zip[OF ds cols(1)])
  with c have e: "cols0 = cols" by simp
  have ms: "map snd samples = cols" unfolding cols(3) using cols(1) by simp
  have nrd: "nr d = int (foldr (*) (map length cols) 1)"
    by (simp add: d DefaultDesigns_def determine_nr_of_designs_def ms fold_lengths)
  have ld: "length (designs d) = foldr (*) (map length cols) 1"
    by (simp add: d DefaultDesigns_def e length_product_lists)
  have pl: "int (foldr (*) (map length cols) 1) = prod_list (map (\<lambda>c. int (length c)) cols)"
    by (induction cols) simp_all
  show ?thesis using nrd ld pl cols(1,2) by (auto simp: d DefaultDesigns_def)
qed

lemma sample_nonneg: "sample L s dn ps n k = (Inr v, k') \<Longrightarrow> 0 \<le> n"
  by (cases s) (auto split: sum.splits if_splits dest: lhs_length)

lemma generate_samples_nonneg:
  "generate_samples L s ps n acc k = (Inr d, k') \<Longrightarrow> ps \<noteq> [] \<Longrightarrow> 0 \<le> n"
  by (cases ps) (auto split: prod.splits sum.splits dest: sample_nonneg)

lemma generate_designs_yield:
  assumes "generate_designs L s ps n k = (Inr d, k')" and "ps \<noteq> []"
    and "iterate L (set_kind c (Default d)) = Inr objs"
  shows "reported_n (Default d) = n \<and> int (length objs) = n"
proof -
  from assms(1) obtain sampled where
    gs: "generate_samples L s (sort_key name ps) n [] k = (Inr sampled, k')"
    by (auto simp: generate_designs_def Let_def split: prod.splits sum.splits)
  have "sort_key name ps \<noteq> []" using assms(2) by (metis length_0_conv length_sort)
  from generate_samples_nonneg[OF gs this] have n0: "0 \<le> n" .
  from generate_designs_count[OF assms(1)] assms(2)
  have "nr d = n" "length (designs d) = nat n" by auto
  moreover have "length objs = length (designs d)"
    using assms(3) by (simp add: design_generator_length)
  ultimately show ?thesis using n0 by simp
qed

lemma ff_designs_yield:
  assumes "ff_generate_designs ps n = Inr d" and "distinct (map name ps)"
    and "iterate L (set_kind c (Default d)) = Inr objs"
  shows "int (length objs) = reported_n (Default d)"
  using ff_designs_count[OF assms(1,2)] assms(3) by (simp add: design_generator_length)

lemma pff_designs_yield:
  assumes "pff_generate_designs L s ps n k = (Inr d, k')" and "distinct (map name ps)"
    and "\<exists>p\<in>set ps. \<not> pff p"
    and "iterate L (set_kind c (Partial d)) = Inr objs"
  shows "int (length objs) = reported_n (Partial d) \<and>
         pf_nr d = nr (other_designs d) * nr (ff_designs d)"
proof -
  let ?ff = "filter pff ps" and ?ot = "filter (Not \<circ> pff) ps"
  from assms(1) obtain ffd od where
    f: "ff_generate_designs ?ff n = Inr ffd"
    and o: "generate_designs L s ?ot n k = (Inr od, k')"
    and d: "d = PartialFactorialDesigns ffd od ps (nr od * nr ffd)"
    by (auto simp: pff_generate_designs_def sort_parameters_def split: sum.splits prod.splits)
  have ne: "?ot \<noteq> []" using assms(3) by (auto simp: filter_empty_conv)
  have df: "distinct (map name ?ff)" using assms(2) by (simp add: distinct_map_filter)
  from assms(4) obtain fs os where
    fs: "design_generator L (designs ffd) (parameters ffd) (Some c) = Inr fs"
    and os: "design_generator L (designs od) (parameters od) (Some c) = Inr os"
    and objs: "objs = map (\<lambda>(f, other). merge_parts f other) (List.product fs os)"
    by (auto simp: d PartialFactorialDesigns_def split: sum.splits)
  have 1: "int (length fs) = nr ffd"
    using ff_designs_yield[OF f df, where L = L and c = c and objs = fs] fs by simp
  have 2: "int (length os) = nr od"
    using generate_designs_yield[OF o ne, where c = c and objs = os] os by simp
  have "int (length objs) = int (length fs) * int (length os)" by (simp add: objs)
  then show ?thesis using 1 2 by (simp add: d PartialFactorialDesigns_def)
qed

text \<open>
  C1 fails on the code. With the Partial Factorial sampler and a single parameter that
  is flagged factorial, asked for 2 samples: the non-factorial part is built over an
  empty parameter list, where \<^verbatim>\<open>zip(*[])\<close> yields no design although the part reports 2.
  The design set reports \<open>2 * 2 = 4\<close> designs and iterating it yields none. This is the
  case that the lemmas above leave out.
\<close>

theorem partial_factorial_count_mismatch:
  "(case pff_generate_designs test_lib LHSSampler
           [(example_parameter ''a'' RealParameter)\<lparr>pff := True\<rparr>] 2 0 of
      (Inr d, k) \<Rightarrow>
         reported_n (Partial d) = 4 \<and>
         iterate test_lib (set_kind ScenarioKind (Partial d)) = Inr []
    | (Inl e, k) \<Rightarrow> False)"
  by code_simp

section \<open>Properties of the design assembler\<close>














section \<open>Properties of the evaluators and of running the experiments\<close>

text \<open>
  C5. When both the scenario and the policy specification are zero or empty,
  \<^verbatim>\<open>perform_experiments\<close> raises \<^verbatim>\<open>EMAError\<close> and leaves the process state as it found it:
  the random number generator has not moved (nothing was sampled) and no step was
  logged (no callback and no evaluator was created, nothing was evaluated), whatever
  the collaborators and the evaluator are.
\<close>

theorem zero_experiments_fail_first:
  assumes "falsy scenarios" and "falsy policies"
  shows "perform_experiments E models scenarios policies evaluator uncertainty_union lever_union
           outcome_union uncertainty_sampling levers_sampling s = (Inl EMAError, s)"
  using assms by (simp add: perform_experiments_def)

theorem zero_experiments_fail_first_witness:
  "perform_experiments test_env (OneModel test_model) (Count 0) (Given []) None False False False
     ''lhs'' ''lhs'' test_process = (Inl EMAError, test_process)"
proof -
  have 1: "falsy (Count 0)" and 2: "falsy (Given [])" by simp_all
  show ?thesis by (rule zero_experiments_fail_first[OF 1 2])
qed

text \<open>
  C10. When \<^verbatim>\<open>SequentialEvaluator.evaluate_experiments\<close> returns without an exception,
  the working directory is the one it started in, whatever the model runs, the callback
  and the cleanup did to it.
\<close>

theorem sequential_restores_cwd:
  assumes "sequential_evaluate_experiments E msis call scenarios policies cb s = (Inr cb', s')"
  shows "cwd s' = cwd s"
  using assms
  by (auto simp: sequential_evaluate_experiments_def os_chdir_def Let_def
      split: sum.splits prod.splits if_splits)

theorem sequential_restores_cwd_witness:
  "sequential_evaluate_experiments test_env [test_model]
       (\<lambda>cb x result s. (callback_call cb x result, s))
       (Listed [Scenario ''None'' []]) (Listed [Policy ''None'' []])
       (DefaultCallback [] [] [''y''] 1) test_process =
     (Inr \<lparr>cb_i = 1, cb_outcomes = [''y''],
           cb_cases = [Some \<lparr>model_of = ''m'', policy_of = Policy ''None'' [],
                             scenario_of = Scenario ''None'' [], experiment_id = 0\<rparr>],
           cb_results = [Some [(''y'', 1)]]\<rparr>,
      test_process)
   \<and> cwd (snd (run_experiment test_env
                  \<lparr>model_of = ''m'', policy_of = Policy ''None'' [],
                   scenario_of = Scenario ''None'' [], experiment_id = 0\<rparr> test_process)) = ''/tmp/run''
   \<and> cwd test_process = ''/home''"
proof -
  have e: "sequential_evaluate_experiments test_env [test_model]
       (\<lambda>cb x result s. (callback_call cb x result, s))
       (Listed [Scenario ''None'' []]) (Listed [Policy ''None'' []])
       (DefaultCallback [] [] [''y''] 1) test_process =
     (Inr \<lparr>cb_i = 1, cb_outcomes = [''y''],
           cb_cases = [Some \<lparr>model_of = ''m'', policy_of = Policy ''None'' [],
                             scenario_of = Scenario ''None'' [], experiment_id = 0\<rparr>],
           cb_results = [Some [(''y'', 1)]]\<rparr>,
      test_process)"
    by code_simp
  show ?thesis
    using sequential_restores_cwd[OF e] e by (simp add: test_env_def test_process_def)
qed

lemma pool_exit_abnormal:
  "pool_exit (Some p) (Some e) = (Inr (Some False), Some (pool_terminate p))"
  by (simp add: pool_exit_def)

lemma pool_exit_normal:
  "pool_exit (Some p) None =
     (Inr None, Some (p\<lparr>accepting := False, done_tasks := done_tasks p + pending p, pending := 0,
                         calls := calls p @ [Close, Join]\<rparr>))"
  by (simp add: pool_exit_def pool_close_def pool_join_def)

text \<open>
  C8. Around a block that uses the process pool: when the block raises, \<^verbatim>\<open>__exit__\<close>
  calls \<^verbatim>\<open>terminate\<close> only (it does not join, so nothing is waited for), the outstanding
  tasks are dropped and the exception of the block is raised again; when the block ends
  normally, \<^verbatim>\<open>__exit__\<close> calls \<^verbatim>\<open>close\<close> and then \<^verbatim>\<open>join\<close>: the pool takes no new tasks and
  all outstanding tasks are done before the block is left.
\<close>

theorem pool_exit_aborts_or_drains:
  "(body pl = (Inl e, Some p) \<longrightarrow>
      with_pool pl body =
        (Inl e, Some (p\<lparr>accepting := False, dropped := dropped p + pending p, pending := 0,
                        calls := calls p @ [Terminate]\<rparr>)))
   \<and> (body pl = (Inr a, Some p) \<longrightarrow>
      with_pool pl body =
        (Inr (Some a), Some (p\<lparr>accepting := False, done_tasks := done_tasks p + pending p,
                               pending := 0, calls := calls p @ [Close, Join]\<rparr>)))"
  by (simp add: with_pool_def pool_exit_abnormal pool_exit_normal pool_terminate_def)

theorem pool_exit_aborts_or_drains_witness:
  "with_pool (Some test_pool) (\<lambda>pl. (Inl RunError, map_option (\<lambda>p. p\<lparr>pending := 3\<rparr>) pl)) =
     (Inl RunError, Some \<lparr>accepting = False, pending = 0, done_tasks = 0, dropped = 3, calls = [Terminate]\<rparr>)
   \<and> with_pool (Some test_pool) (\<lambda>pl. (Inr (), map_option (\<lambda>p. p\<lparr>pending := 3\<rparr>) pl)) =
     (Inr (Some ()), Some \<lparr>accepting = False, pending = 0, done_tasks = 3, dropped = 0, calls = [Close, Join]\<rparr>)"
  using pool_exit_aborts_or_drains[of "\<lambda>pl. (Inl RunError, map_option (\<lambda>p. p\<lparr>pending := 3\<rparr>) pl)"
          "Some test_pool" RunError "test_pool\<lparr>pending := 3\<rparr>"]
        pool_exit_aborts_or_drains[of "\<lambda>pl. (Inr (), map_option (\<lambda>p. p\<lparr>pending := 3\<rparr>) pl)"
          "Some test_pool" _ "test_pool\<lparr>pending := 3\<rparr>" "()"]
  by (simp add: test_pool_def)

lemma perform_experiments_unfold:
  assumes nz: "\<not> (falsy scenarios \<and> falsy policies)"
    and sa: "scenario_axis E models scenarios uu usamp s = (Inr (scs, us, n_s), s1)"
    and pa: "policy_axis E models policies lu lsamp s1 = (Inr (pols, ls, n_p), s2)"
    and outs: "determine_outcomes E models ou = Inr outs"
  shows "perform_experiments E models scenarios policies evaluator uu lu ou usamp lsamp s =
     (case (case evaluator of None \<Rightarrow> SequentialEvaluator E models | Some ev \<Rightarrow> ev) scs pols
             (DefaultCallback us ls outs (n_models_of models * n_s * n_p))
             (log_event Evaluated_experiments
               (case evaluator of
                  None \<Rightarrow> log_event Created_evaluator
                            (log_event (Created_callback (n_models_of models * n_s * n_p)) s2)
                | Some ev \<Rightarrow> log_event (Created_callback (n_models_of models * n_s * n_p)) s2)) of
        (Inl e, s5) \<Rightarrow> (Inl e, s5)
      | (Inr cb, s5) \<Rightarrow>
          if int (cb_i cb) \<noteq> n_models_of models * n_s * n_p then (Inl EMAError, s5)
          else (Inr (get_results cb), s5))"
proof -
  have f: "(falsy scenarios \<and> falsy policies) = False" using nz by simp
  show ?thesis
    unfolding perform_experiments_def f if_False
    by (cases evaluator) (simp_all add: sa pa outs Let_def)
qed

lemma perform_experiments_success:
  assumes "perform_experiments E models scenarios policies evaluator uu lu ou usamp lsamp s =
             (Inr results, s')"
  shows "\<exists>scs us n_s s1 pols ls n_p s2 outs cb.
           scenario_axis E models scenarios uu usamp s = (Inr (scs, us, n_s), s1) \<and>
           policy_axis E models policies lu lsamp s1 = (Inr (pols, ls, n_p), s2) \<and>
           determine_outcomes E models ou = Inr outs \<and>
           (case evaluator of None \<Rightarrow> SequentialEvaluator E models | Some ev \<Rightarrow> ev) scs pols
             (DefaultCallback us ls outs (n_models_of models * n_s * n_p))
             (log_event Evaluated_experiments
               (case evaluator of
                  None \<Rightarrow> log_event Created_evaluator
                            (log_event (Created_callback (n_models_of models * n_s * n_p)) s2)
                | Some ev \<Rightarrow> log_event (Created_callback (n_models_of models * n_s * n_p)) s2))
             = (Inr cb, s') \<and>
           results = get_results cb \<and> int (cb_i cb) = n_models_of models * n_s * n_p"
proof -
  from assms have nz: "\<not> (falsy scenarios \<and> falsy policies)"
    by (auto simp: perform_experiments_def)
  from assms nz obtain scs us n_s s1 where
    sa: "scenario_axis E models scenarios uu usamp s = (Inr (scs, us, n_s), s1)"
    by (auto simp: perform_experiments_def split: prod.splits sum.splits)
  from assms nz sa obtain pols ls n_p s2 where
    pa: "policy_axis E models policies lu lsamp s1 = (Inr (pols, ls, n_p), s2)"
    by (auto simp: perform_experiments_def split: prod.splits sum.splits)
  from assms nz sa pa obtain outs where outs: "determine_outcomes E models ou = Inr outs"
    by (auto simp: perform_experiments_def Let_def split: prod.splits sum.splits)
  from assms show ?thesis
    unfolding perform_experiments_unfold[OF nz sa pa outs]
    using sa pa outs
    by (auto split: prod.splits sum.splits if_splits)
qed



lemma callback_call_inv:
  assumes "callback_call cb x result = Inr cb'"
  shows "cb_i cb' = cb_i cb + 1 \<and>
         length (cb_cases cb') = length (cb_cases cb) \<and>
         length (cb_results cb') = length (cb_results cb) \<and>
         experiment_id x < length (cb_results cb) \<and>
         cb_cases cb' = (cb_cases cb)[experiment_id x := Some x] \<and>
         cb_results cb' = (cb_results cb)[experiment_id x := Some result] \<and>
         cb_outcomes cb' = cb_outcomes cb"
  using assms by (auto simp: callback_call_def split: if_splits)

lemma run_experiments_callback:
  assumes "run_experiments E (\<lambda>cb x result s. (callback_call cb x result, s)) xs cb s = (Inr cb', s')"
    and "distinct (map experiment_id xs)"
    and "length (cb_cases cb) = length (cb_results cb)"
  shows "cb_i cb' = cb_i cb + length xs \<and>
         length (cb_cases cb') = length (cb_cases cb) \<and>
         length (cb_results cb') = length (cb_results cb) \<and>
         (\<forall>x\<in>set xs. experiment_id x < length (cb_results cb) \<and>
                     cb_cases cb' ! experiment_id x = Some x \<and>
                     cb_results cb' ! experiment_id x \<noteq> None)"
  using assms
proof (induction xs arbitrary: cb s)
  case Nil
  then show ?case by simp
next
  case (Cons x xs)
  from Cons.prems(1) obtain result s1 cb1 where
    c: "callback_call cb x result = Inr cb1"
    and r: "run_experiments E (\<lambda>cb x result s. (callback_call cb x result, s)) xs cb1 s1 = (Inr cb', s')"
    by (auto split: prod.splits sum.splits)
  note i = callback_call_inv[OF c]
  have d: "distinct (map experiment_id xs)" using Cons.prems(2) by simp
  have l: "length (cb_cases cb1) = length (cb_results cb1)" using i Cons.prems(3) by simp
  note ih = Cons.IH[OF r d l]
  have notin: "experiment_id x \<notin> experiment_id ` set xs" using Cons.prems(2) by simp
  have keep: "cb_cases cb' ! j = cb_cases cb1 ! j \<and> cb_results cb' ! j = cb_results cb1 ! j"
    if "j \<notin> experiment_id ` set xs" for j
    using r d l that
  proof (induction xs arbitrary: cb1 s1)
    case Nil
    then show ?case by simp
  next
    case (Cons y ys)
    from Cons.prems(1) obtain result2 s2 cb2 where
      c2: "callback_call cb1 y result2 = Inr cb2"
      and r2: "run_experiments E (\<lambda>cb x result s. (callback_call cb x result, s)) ys cb2 s2 = (Inr cb', s')"
      by (auto split: prod.splits sum.splits)
    note i2 = callback_call_inv[OF c2]
    have "j \<noteq> experiment_id y" "j \<notin> experiment_id ` set ys" using Cons.prems(4) by auto
    moreover have "distinct (map experiment_id ys)" using Cons.prems(2) by simp
    moreover have "length (cb_cases cb2) = length (cb_results cb2)" using i2 Cons.prems(3) by simp
    ultimately show ?case using Cons.IH[OF r2] i2 by simp
  qed
  have x1: "cb_cases cb' ! experiment_id x = Some x \<and> cb_results cb' ! experiment_id x \<noteq> None"
    using keep[OF notin] i Cons.prems(3) by simp
  show ?case using ih i x1 by auto
qed

lemma experiment_generator_ids:
  assumes "experiment_generator L scs msis pols = Inr exps"
    and "iter_all L scs = Inr ss" and "iter_all L pols = Inr ps"
  shows "map experiment_id exps = [0..<length ss * (length ps * length msis)]"
proof -
  from assms have e: "exps = map (\<lambda>(i, s, p, m).
                           \<lparr>model_of = model_name m, policy_of = p, scenario_of = s,
                            experiment_id = i\<rparr>)
                      (enumerate 0 (List.product ss (List.product ps msis)))"
    by (simp add: experiment_generator_def)
  have "map experiment_id exps = map fst (enumerate 0 (List.product ss (List.product ps msis)))"
    unfolding e by (simp add: case_prod_unfold o_def)
  then show ?thesis by simp
qed

lemma experiment_generator_iter:
  assumes "experiment_generator L scs msis pols = Inr exps"
  shows "\<exists>ss ps. iter_all L scs = Inr ss \<and> iter_all L pols = Inr ps"
  using assms by (auto simp: experiment_generator_def split: sum.splits)

lemma sequential_default_rows:
  assumes "SequentialEvaluator E models scs pols (DefaultCallback us ls outs tot) s = (Inr cb, s')"
    and "int (cb_i cb) = tot"
  shows "\<exists>exps. experiment_generator (lib_of E) scs (msis_of models) pols = Inr exps \<and>
           map experiment_id exps = [0..<nat tot] \<and>
           cb_cases cb = map Some exps \<and>
           length (cb_results cb) = nat tot \<and>
           list_all (\<lambda>r. r \<noteq> None) (cb_results cb)"
proof -
  let ?cb0 = "DefaultCallback us ls outs tot"
  from assms(1) obtain exps s1 where
    g: "experiment_generator (lib_of E) scs (msis_of models) pols = Inr exps"
    and r: "run_experiments E (\<lambda>cb x result s. (callback_call cb x result, s)) exps ?cb0 s = (Inr cb, s1)"
    by (auto simp: SequentialEvaluator_def sequential_evaluate_experiments_def Let_def
        split: sum.splits prod.splits)
  from experiment_generator_iter[OF g] obtain ss ps where
    it: "iter_all (lib_of E) scs = Inr ss" "iter_all (lib_of E) pols = Inr ps" by blast
  have ids: "map experiment_id exps = [0..<length exps]"
    using experiment_generator_ids[OF g it] by (metis length_map length_upt minus_nat.diff_0)
  have dist: "distinct (map experiment_id exps)" using ids by (metis distinct_upt)
  have l0: "length (cb_cases ?cb0) = length (cb_results ?cb0)" by (simp add: DefaultCallback_def)
  note inv = run_experiments_callback[OF r dist l0]
  have i0: "cb_i ?cb0 = 0" and lr: "length (cb_results ?cb0) = nat tot"
    and lc: "length (cb_cases ?cb0) = nat tot"
    by (simp_all add: DefaultCallback_def)
  have len: "length exps = nat tot" using inv i0 assms(2) by simp
  have idj: "experiment_id (exps ! j) = j" if "j < length exps" for j
  proof -
    have "map experiment_id exps ! j = [0..<length exps] ! j" using ids by simp
    then show ?thesis using that by simp
  qed
  have row: "cb_cases cb ! j = Some (exps ! j) \<and> cb_results cb ! j \<noteq> None" if "j < length exps" for j
    using inv that idj[OF that] nth_mem[OF that] by metis
  have c: "cb_cases cb = map Some exps"
    by (rule nth_equalityI) (use inv lc len row in auto)
  have rs: "list_all (\<lambda>r. r \<noteq> None) (cb_results cb)"
    unfolding list_all_length using inv lr len row by auto
  show ?thesis using g ids len c rs inv lr by auto
qed


lemma scenario_axis_implicit:
  "falsy scenarios \<Longrightarrow>
     scenario_axis E models scenarios uu usamp s = (Inr (Listed [Scenario ''None'' []], [], 1), s)"
  by (simp add: scenario_axis_def)

lemma lookup_lhs: "lookup SAMPLERS ''lhs'' = Inr LHSSampler_class"
  by (simp add: lookup_def SAMPLERS_def)

lemma scenario_axis_count_lhs:
  assumes "scenario_axis E models (Count n) uu ''lhs'' s = (Inr (scs, us, n_s), s1)" and "n \<noteq> 0"
  shows "n_s = n \<and>
     (\<exists>d us0. determine_objects E models ''uncertainties'' uu = Inr us0 \<and>
        scs = Sampled (Default (d\<lparr>kind_of := Some ScenarioKind\<rparr>)) \<and>
        (us0 \<noteq> [] \<longrightarrow> length (designs d) = nat n))"
proof -
  from assms obtain us0 d k' where
    u: "determine_objects E models ''uncertainties'' uu = Inr us0"
    and g: "generate_designs (lib_of E) LHSSampler us0 n (rng (log_event Sampled_uncertainties s)) = (Inr d, k')"
    and scs: "scs = Sampled (Default (d\<lparr>kind_of := Some ScenarioKind\<rparr>))"
    and ns: "n_s = nr d"
    by (auto simp: scenario_axis_def lookup_lhs sample_uncertainties_def obj_generate_designs_def
        split: sum.splits prod.splits)
  from generate_designs_count[OF g] u scs ns show ?thesis by auto
qed

lemma policy_axis_count_lhs:
  assumes "policy_axis E models (Count n) lu ''lhs'' s = (Inr (pols, ls, n_p), s1)" and "n \<noteq> 0"
  shows "n_p = n \<and>
     (\<exists>d ls0. determine_objects E models ''levers'' lu = Inr ls0 \<and>
        pols = Sampled (Default (d\<lparr>kind_of := Some PolicyKind\<rparr>)) \<and>
        (ls0 \<noteq> [] \<longrightarrow> length (designs d) = nat n))"
proof -
  from assms obtain ls0 d k' where
    u: "determine_objects E models ''levers'' lu = Inr ls0"
    and g: "generate_designs (lib_of E) LHSSampler ls0 n (rng (log_event Sampled_levers s)) = (Inr d, k')"
    and pols: "pols = Sampled (Default (d\<lparr>kind_of := Some PolicyKind\<rparr>))"
    and ns: "n_p = nr d"
    by (auto simp: policy_axis_def lookup_lhs sample_levers_def obj_generate_designs_def
        split: sum.splits prod.splits)
  from generate_designs_count[OF g] u pols ns show ?thesis by auto
qed

lemma iter_default_length:
  "iter_all L (Sampled (Default d)) = Inr objs \<Longrightarrow> length objs = length (designs d)"
  by (simp add: design_generator_length)

lemma perform_experiments_default_rows:
  assumes "perform_experiments E models scenarios policies None uu lu ou usamp lsamp s =
             (Inr (cs, results), s')"
  shows "\<exists>scs us n_s s1 pols ls n_p s2 exps.
        scenario_axis E models scenarios uu usamp s = (Inr (scs, us, n_s), s1) \<and>
        policy_axis E models policies lu lsamp s1 = (Inr (pols, ls, n_p), s2) \<and>
        experiment_generator (lib_of E) scs (msis_of models) pols = Inr exps \<and>
        map experiment_id exps = [0..<nat (n_models_of models * n_s * n_p)] \<and>
        cs = map Some exps \<and>
        length results = nat (n_models_of models * n_s * n_p) \<and>
        list_all (\<lambda>r. r \<noteq> None) results"
proof -
  from perform_experiments_success[OF assms] obtain scs us n_s s1 pols ls n_p s2 outs cb where
    sa: "scenario_axis E models scenarios uu usamp s = (Inr (scs, us, n_s), s1)"
    and pa: "policy_axis E models policies lu lsamp s1 = (Inr (pols, ls, n_p), s2)"
    and ev: "SequentialEvaluator E models scs pols
             (DefaultCallback us ls outs (n_models_of models * n_s * n_p))
             (log_event Evaluated_experiments
               (log_event Created_evaluator
                 (log_event (Created_callback (n_models_of models * n_s * n_p)) s2)))
             = (Inr cb, s')"
    and res: "(cs, results) = get_results cb"
    and cnt: "int (cb_i cb) = n_models_of models * n_s * n_p"
    by auto
  from sequential_default_rows[OF ev cnt] obtain exps where
    "experiment_generator (lib_of E) scs (msis_of models) pols = Inr exps"
    "map experiment_id exps = [0..<nat (n_models_of models * n_s * n_p)]"
    "cb_cases cb = map Some exps"
    "length (cb_results cb) = nat (n_models_of models * n_s * n_p)"
    "list_all (\<lambda>r. r \<noteq> None) (cb_results cb)"
    by blast
  with sa pa res show ?thesis by (auto simp: get_results_def)
qed

text \<open>
  What holds of the totals. With no scenarios given, \<^verbatim>\<open>perform_experiments\<close> uses exactly
  one implicit scenario, named \<open>None\<close> and empty, and counts one scenario. When it returns
  (with the sequential evaluator it creates itself), the experiments that were generated
  carry the ids \<open>0, \<dots>, N - 1\<close> for \<open>N\<close> = models times scenarios times policies, and each
  of the \<open>N\<close> rows of the result tables has been written, row \<open>i\<close> by experiment \<open>i\<close>. When
  the model has uncertainties and levers, 3 scenarios and 2 policies sampled by Latin
  Hypercube make the experiment generator yield exactly 6 experiments.
\<close>

lemma experiment_totals:
  "(falsy scenarios \<longrightarrow>
      scenario_axis E models scenarios uu usamp s =
        (Inr (Listed [Scenario ''None'' []], [], 1), s))
   \<and> (perform_experiments E models scenarios policies None uu lu ou usamp lsamp s =
         (Inr (cs, results), s')
       \<longrightarrow> (\<exists>scs us n_s s1 pols ls n_p s2 exps.
              scenario_axis E models scenarios uu usamp s = (Inr (scs, us, n_s), s1) \<and>
              policy_axis E models policies lu lsamp s1 = (Inr (pols, ls, n_p), s2) \<and>
              experiment_generator (lib_of E) scs (msis_of models) pols = Inr exps \<and>
              map experiment_id exps = [0..<nat (n_models_of models * n_s * n_p)] \<and>
              cs = map Some exps \<and>
              length results = nat (n_models_of models * n_s * n_p) \<and>
              list_all (\<lambda>r. r \<noteq> None) results))
   \<and> (perform_experiments E (OneModel m) (Count 3) (Count 2) None uu lu ou ''lhs'' ''lhs'' s =
         (Inr (cs, results), s')
       \<longrightarrow> length cs = 6 \<and> length results = 6 \<and>
           map (map_option experiment_id) cs = map Some [0..<6] \<and>
           list_all (\<lambda>r. r \<noteq> None) results)
   \<and> (determine_objects E (OneModel m) ''uncertainties'' uu = Inr us0 \<and> us0 \<noteq> [] \<and>
       determine_objects E (OneModel m) ''levers'' lu = Inr ls0 \<and> ls0 \<noteq> [] \<and>
       scenario_axis E (OneModel m) (Count 3) uu ''lhs'' s = (Inr (scs, us, n_s), s1) \<and>
       policy_axis E (OneModel m) (Count 2) lu ''lhs'' s1 = (Inr (pols, ls, n_p), s2) \<and>
       experiment_generator (lib_of E) scs (msis_of (OneModel m)) pols = Inr exps
       \<longrightarrow> n_models_of (OneModel m) * n_s * n_p = 6 \<and> map experiment_id exps = [0..<6])"
proof -
  have c1: "falsy scenarios \<longrightarrow>
      scenario_axis E models scenarios uu usamp s =
        (Inr (Listed [Scenario ''None'' []], [], 1), s)"
    by (simp add: scenario_axis_implicit)
  have c2: "perform_experiments E models scenarios policies None uu lu ou usamp lsamp s =
         (Inr (cs, results), s')
       \<longrightarrow> (\<exists>scs us n_s s1 pols ls n_p s2 exps.
              scenario_axis E models scenarios uu usamp s = (Inr (scs, us, n_s), s1) \<and>
              policy_axis E models policies lu lsamp s1 = (Inr (pols, ls, n_p), s2) \<and>
              experiment_generator (lib_of E) scs (msis_of models) pols = Inr exps \<and>
              map experiment_id exps = [0..<nat (n_models_of models * n_s * n_p)] \<and>
              cs = map Some exps \<and>
              length results = nat (n_models_of models * n_s * n_p) \<and>
              list_all (\<lambda>r. r \<noteq> None) results)"
    by (rule impI) (rule perform_experiments_default_rows)
  have c3: "perform_experiments E (OneModel m) (Count 3) (Count 2) None uu lu ou ''lhs'' ''lhs'' s =
         (Inr (cs, results), s')
       \<longrightarrow> length cs = 6 \<and> length results = 6 \<and>
           map (map_option experiment_id) cs = map Some [0..<6] \<and>
           list_all (\<lambda>r. r \<noteq> None) results"
  proof
  assume a: "perform_experiments E (OneModel m) (Count 3) (Count 2) None uu lu ou ''lhs'' ''lhs'' s =
         (Inr (cs, results), s')"
  from perform_experiments_default_rows[OF a] obtain scs us n_s s1 pols ls n_p s2 exps where
    sa: "scenario_axis E (OneModel m) (Count 3) uu ''lhs'' s = (Inr (scs, us, n_s), s1)"
    and pa: "policy_axis E (OneModel m) (Count 2) lu ''lhs'' s1 = (Inr (pols, ls, n_p), s2)"
    and ids: "map experiment_id exps = [0..<nat (n_models_of (OneModel m) * n_s * n_p)]"
    and cs: "cs = map Some exps"
    and lr: "length results = nat (n_models_of (OneModel m) * n_s * n_p)"
    and al: "list_all (\<lambda>r. r \<noteq> None) results"
    by blast
  have ns: "n_s = 3" using scenario_axis_count_lhs[OF sa] by simp
  have np: "n_p = 2" using policy_axis_count_lhs[OF pa] by simp
  have six: "nat (n_models_of (OneModel m) * n_s * n_p) = 6" by (simp add: ns np)
  have le: "length exps = 6" using ids six by (metis length_map length_upt minus_nat.diff_0)
  have "map (map_option experiment_id) cs = map Some (map experiment_id exps)"
    by (simp add: cs)
  then have m: "map (map_option experiment_id) cs = map Some [0..<6]" using ids six by simp
  show "length cs = 6 \<and> length results = 6 \<and>
           map (map_option experiment_id) cs = map Some [0..<6] \<and>
           list_all (\<lambda>r. r \<noteq> None) results"
    using cs le lr six m al by simp
  qed
  have c4: "determine_objects E (OneModel m) ''uncertainties'' uu = Inr us0 \<and> us0 \<noteq> [] \<and>
       determine_objects E (OneModel m) ''levers'' lu = Inr ls0 \<and> ls0 \<noteq> [] \<and>
       scenario_axis E (OneModel m) (Count 3) uu ''lhs'' s = (Inr (scs, us, n_s), s1) \<and>
       policy_axis E (OneModel m) (Count 2) lu ''lhs'' s1 = (Inr (pols, ls, n_p), s2) \<and>
       experiment_generator (lib_of E) scs (msis_of (OneModel m)) pols = Inr exps
       \<longrightarrow> n_models_of (OneModel m) * n_s * n_p = 6 \<and> map experiment_id exps = [0..<6]"
  proof
  assume a: "determine_objects E (OneModel m) ''uncertainties'' uu = Inr us0 \<and> us0 \<noteq> [] \<and>
       determine_objects E (OneModel m) ''levers'' lu = Inr ls0 \<and> ls0 \<noteq> [] \<and>
       scenario_axis E (OneModel m) (Count 3) uu ''lhs'' s = (Inr (scs, us, n_s), s1) \<and>
       policy_axis E (OneModel m) (Count 2) lu ''lhs'' s1 = (Inr (pols, ls, n_p), s2) \<and>
       experiment_generator (lib_of E) scs (msis_of (OneModel m)) pols = Inr exps"
  then have sa: "scenario_axis E (OneModel m) (Count 3) uu ''lhs'' s = (Inr (scs, us, n_s), s1)"
    and pa: "policy_axis E (OneModel m) (Count 2) lu ''lhs'' s1 = (Inr (pols, ls, n_p), s2)"
    and g: "experiment_generator (lib_of E) scs (msis_of (OneModel m)) pols = Inr exps"
    by simp_all
  from scenario_axis_count_lhs[OF sa] a obtain d where
    ns: "n_s = 3" and scs: "scs = Sampled (Default (d\<lparr>kind_of := Some ScenarioKind\<rparr>))"
    and ld: "length (designs d) = 3"
    by auto
  from policy_axis_count_lhs[OF pa] a obtain d' where
    np: "n_p = 2" and pols: "pols = Sampled (Default (d'\<lparr>kind_of := Some PolicyKind\<rparr>))"
    and ld': "length (designs d') = 2"
    by auto
  from experiment_generator_iter[OF g] obtain ss ps where
    it: "iter_all (lib_of E) scs = Inr ss" "iter_all (lib_of E) pols = Inr ps" by blast
  have l1: "length ss = 3" using iter_default_length[OF it(1)[unfolded scs]] ld by simp
  have l2: "length ps = 2" using iter_default_length[OF it(2)[unfolded pols]] ld' by simp
  have "map experiment_id exps = [0..<length ss * (length ps * length (msis_of (OneModel m)))]"
    by (rule experiment_generator_ids[OF g it])
  then show "n_models_of (OneModel m) * n_s * n_p = 6 \<and> map experiment_id exps = [0..<6]"
    by (simp add: ns np l1 l2)
  qed
  show ?thesis by (rule conjI[OF c1 conjI[OF c2 conjI[OF c3 c4]]])
qed

lemma experiment_totals_example:
  "\<exists>cs results s'.
     perform_experiments test_env (OneModel test_model) (Count 3) (Count 2) None False False False
       ''lhs'' ''lhs'' test_process = (Inr (cs, results), s') \<and>
     length cs = 6 \<and> length results = 6 \<and>
     map (map_option experiment_id) cs = map Some [0..<6] \<and>
     list_all (\<lambda>r. r \<noteq> None) results"
proof -
  have "\<not> isl (fst (perform_experiments test_env (OneModel test_model) (Count 3) (Count 2) None
          False False False ''lhs'' ''lhs'' test_process))"
    by code_simp
  then obtain cs results s' where
    e: "perform_experiments test_env (OneModel test_model) (Count 3) (Count 2) None False False False
       ''lhs'' ''lhs'' test_process = (Inr (cs, results), s')"
    by (metis isl_def prod.collapse sum.collapse(2) surj_pair)
  from experiment_totals[where E = test_env and s = test_process and m = test_model
         and cs = cs and results = results and s' = s' and uu = False and lu = False
         and ou = False] e
  show ?thesis by blast
qed

text \<open>
  C9 fails on the code. One model that declares no levers, 3 scenarios and 2 policies,
  both sampled by Latin Hypercube: the policies are sampled over an empty parameter
  list, where \<^verbatim>\<open>zip(*[])\<close> yields no design although the design set reports 2. So
  \<^verbatim>\<open>perform_experiments\<close> counts 2 policies and expects \<open>1 * 3 * 2 = 6\<close> experiments (the
  callback is created for 6), the experiment generator yields none, and the final check
  raises \<^verbatim>\<open>EMAError\<close> instead of returning a 6-row result table.
\<close>

theorem no_levers_run_fails:
  "(case policy_axis test_env (OneModel (test_model\<lparr>levers := []\<rparr>)) (Count 2) False ''lhs''
           test_process of
      (Inr (pols, ls, n_policies), s1) \<Rightarrow>
         n_policies = 2 \<and> iter_all test_lib pols = Inr []
    | (Inl e, s1) \<Rightarrow> False)
   \<and> perform_experiments test_env (OneModel (test_model\<lparr>levers := []\<rparr>)) (Count 3) (Count 2) None
         False False False ''lhs'' ''lhs'' test_process =
       (Inl EMAError,
        test_process\<lparr>rng := 4,
                      events := [Sampled_uncertainties, Sampled_levers, Created_callback 6,
                                 Created_evaluator, Evaluated_experiments]\<rparr>)"
  by code_simp

end
